theory Spec2Isabelle
  imports Main "HOL-Library.Sublist" "HOL-Library.Word"
begin

section \<open>JavaScript strings and numbers\<close>

text \<open>
  A JavaScript string is modelled as a \<^typ>\<open>string\<close>: each \<^typ>\<open>char\<close> is one code
  unit in the range U+0000..U+00FF.  JavaScript numbers that the code only uses as integers
  (\<open>parseInt\<close> results, \<open>top\<close>, \<open>skip\<close>, row totals) are \<^typ>\<open>int\<close>; the result of
  \<open>parseFloat\<close> is kept abstract (a type parameter \<open>'n\<close> and a function \<open>pf\<close>).
\<close>

definition quote :: char where
  "quote = CHR 0x27"

definition newline :: char where
  "newline = CHR 0x0A"

text \<open>The class \<open>\s\<close> of a regular expression, which is also what \<open>trim\<close> removes.\<close>

definition is_space :: "char \<Rightarrow> bool" where
  "is_space c \<longleftrightarrow> c \<in> set [CHR 0x09, CHR 0x0A, CHR 0x0B, CHR 0x0C, CHR 0x0D, CHR 0x20, CHR 0xA0]"

text \<open>\<open>\d\<close>\<close>

definition is_digit :: "char \<Rightarrow> bool" where
  "is_digit c \<longleftrightarrow> c \<in> set ''0123456789''"

text \<open>\<open>[\d.-]\<close>: the first character of a number or datetime literal.\<close>

definition is_num_start :: "char \<Rightarrow> bool" where
  "is_num_start c \<longleftrightarrow> is_digit c \<or> c \<in> set ''.-''"

text \<open>\<open>[\d.:\-TZ+]\<close>\<close>

definition is_datetime_char :: "char \<Rightarrow> bool" where
  "is_datetime_char c \<longleftrightarrow> is_digit c \<or> c \<in> set ''.:-TZ+''"

text \<open>\<open>[\d.eE+-]\<close>\<close>

definition is_number_char :: "char \<Rightarrow> bool" where
  "is_number_char c \<longleftrightarrow> is_digit c \<or> c \<in> set ''.eE+-''"

text \<open>\<open>[a-zA-Z_]\<close>\<close>

definition is_word_start :: "char \<Rightarrow> bool" where
  "is_word_start c \<longleftrightarrow> c \<in> set ''abcdefghijklmnopqrstuvwxyzABCDEFGHIJKLMNOPQRSTUVWXYZ_''"

text \<open>\<open>[a-zA-Z0-9_]\<close>\<close>

definition is_word_char :: "char \<Rightarrow> bool" where
  "is_word_char c \<longleftrightarrow> is_word_start c \<or> is_digit c"

text \<open>
  \<open>String.prototype.toLowerCase\<close> and \<open>toUpperCase\<close> on the code units modelled.  The
  upper-case letters of U+0000..U+00FF are A..Z and U+00C0..U+00DE without U+00D7, and
  their lower-case forms are 32 code units higher.  The upper-case form of U+00DF is the
  two letters \<open>SS\<close>; those of U+00B5 and U+00FF lie outside the range modelled and are
  left as they are (the code upper-cases only the words \<open>and\<close>, \<open>or\<close>, \<open>not\<close>).
\<close>

definition upper_letters :: string where
  "upper_letters =
     ''ABCDEFGHIJKLMNOPQRSTUVWXYZ'' @
       [CHR 0xC0, CHR 0xC1, CHR 0xC2, CHR 0xC3, CHR 0xC4, CHR 0xC5, CHR 0xC6, CHR 0xC7,
        CHR 0xC8, CHR 0xC9, CHR 0xCA, CHR 0xCB, CHR 0xCC, CHR 0xCD, CHR 0xCE, CHR 0xCF,
        CHR 0xD0, CHR 0xD1, CHR 0xD2, CHR 0xD3, CHR 0xD4, CHR 0xD5, CHR 0xD6, CHR 0xD8,
        CHR 0xD9, CHR 0xDA, CHR 0xDB, CHR 0xDC, CHR 0xDD, CHR 0xDE]"

definition lower_letters :: string where
  "lower_letters =
     ''abcdefghijklmnopqrstuvwxyz'' @
       [CHR 0xE0, CHR 0xE1, CHR 0xE2, CHR 0xE3, CHR 0xE4, CHR 0xE5, CHR 0xE6, CHR 0xE7,
        CHR 0xE8, CHR 0xE9, CHR 0xEA, CHR 0xEB, CHR 0xEC, CHR 0xED, CHR 0xEE, CHR 0xEF,
        CHR 0xF0, CHR 0xF1, CHR 0xF2, CHR 0xF3, CHR 0xF4, CHR 0xF5, CHR 0xF6, CHR 0xF8,
        CHR 0xF9, CHR 0xFA, CHR 0xFB, CHR 0xFC, CHR 0xFD, CHR 0xFE]"

definition lower_char :: "char \<Rightarrow> char" where
  "lower_char c = (case map_of (zip upper_letters lower_letters) c of Some l \<Rightarrow> l | None \<Rightarrow> c)"

definition upper_char :: "char \<Rightarrow> string" where
  "upper_char c =
     (if c = CHR 0xDF then ''SS''
      else (case map_of (zip lower_letters upper_letters) c of Some u \<Rightarrow> [u] | None \<Rightarrow> [c]))"

definition toLowerCase :: "string \<Rightarrow> string" where
  "toLowerCase s = map lower_char s"

definition toUpperCase :: "string \<Rightarrow> string" where
  "toUpperCase s = concat (map upper_char s)"

text \<open>\<open>String.prototype.trim\<close>\<close>

definition trim :: "string \<Rightarrow> string" where
  "trim s = rev (dropWhile is_space (rev (dropWhile is_space s)))"

text \<open>\<open>s.split(c)\<close> for a one-character separator: never an empty array.\<close>

fun split_on :: "char \<Rightarrow> string \<Rightarrow> string list" where
  "split_on sep [] = [[]]"
| "split_on sep (c # cs) =
     (if c = sep then [] # split_on sep cs
      else (case split_on sep cs of
              [] \<Rightarrow> [[c]]
            | p # ps \<Rightarrow> (c # p) # ps))"

text \<open>
  \<open>s.split(/\s+/)\<close>: the pieces between the maximal runs of white space; a run at the
  start or at the end of \<open>s\<close> leaves an empty piece there.
\<close>

function split_ws :: "string \<Rightarrow> string list" where
  "split_ws s =
     (let w = takeWhile (\<lambda>c. \<not> is_space c) s;
          r = dropWhile (\<lambda>c. \<not> is_space c) s
      in if r = [] then [w] else w # split_ws (dropWhile is_space r))"
  by pat_completeness auto
termination
proof (relation "measure length")
  fix s w r
  assume r: "r = dropWhile (\<lambda>c. \<not> is_space c) s" and ne: "r \<noteq> []"
  from ne obtain c cs where rc: "r = c # cs" by (cases r) auto
  have "dropWhile (\<lambda>c. \<not> is_space c) s = c # cs" using r rc by simp
  then have "is_space c"
    by (metis hd_dropWhile list.sel(1) list.distinct(1))
  then have "length (dropWhile is_space r) \<le> length cs"
    using rc by (simp add: length_dropWhile_le)
  moreover have "length r \<le> length s"
    using r by (simp add: length_dropWhile_le)
  ultimately show "(dropWhile is_space r, s) \<in> measure length"
    using rc by simp
qed simp

declare split_ws.simps [simp del]

text \<open>\<open>xs.join(sep)\<close>\<close>

fun join :: "string \<Rightarrow> string list \<Rightarrow> string" where
  "join sep [] = []"
| "join sep [x] = x"
| "join sep (x # y # ys) = x @ sep @ join sep (y # ys)"

text \<open>
  Decimal rendering of a non-negative integer, as \<open>BigInt.prototype.toString\<close> gives it
  for every BigInt and \<open>Number.prototype.toString\<close> for the integers below \<open>10 ^ 21\<close>
  (from there on a number prints in exponent form, which is not modelled).
\<close>

definition digit_char :: "nat \<Rightarrow> char" where
  "digit_char d = ''0123456789'' ! d"

fun toString_nat :: "nat \<Rightarrow> string" where
  "toString_nat n =
     (if n < 10 then [digit_char n]
      else toString_nat (n div 10) @ [digit_char (n mod 10)])"

declare toString_nat.simps [simp del]

definition toString_int :: "int \<Rightarrow> string" where
  "toString_int i = (if i < 0 then CHR ''-'' # toString_nat (nat (- i)) else toString_nat (nat i))"

section \<open>The lexer: \<open>tokenizeFilter\<close>\<close>

text \<open>
  A token is the object \<open>{type, value}\<close> of the source; the constructor is the \<open>type\<close>.
  The value of a number token is the result of \<open>parseFloat\<close>; a comma token's value is
  always \<open>,\<close>.
\<close>

datatype 'n token =
    Identifier string
  | Operator string
  | Logical string
  | Function string
  | String string
  | Number 'n
  | Datetime string
  | Literal string
  | Paren string
  | Comma

text \<open>Every \<open>throw\<close> of the parser and of the resource handlers.\<close>

datatype error =
    UnexpectedCharacter char
  | UnknownField string
  | ExpectedOpenParen string
  | ExpectedFieldName string
  | ExpectedComma string
  | ExpectedStringValue string
  | ExpectedCloseParen string
  | UnexpectedToken
  | InvalidFilter error
  | InvalidSelectField string
  | InvalidOrderByField string
  | InvalidExpand string
  | RangeError
  | TypeError
  | BackendError string

text \<open>
  The inner loop of a string literal, entered after the opening quote: the value read and
  the input left.  The loop stops at a quote that is not doubled or at the end of the
  input, and the statement after it (\<open>i++\<close>) skips one character either way.
\<close>

fun string_literal :: "string \<Rightarrow> string \<Rightarrow> string \<times> string" where
  "string_literal [] v = (v, [])"
| "string_literal (c # cs) v =
     (if c = quote then
        (case cs of
           d # ds \<Rightarrow> if d = quote then string_literal ds (v @ [quote]) else (v, cs)
         | [] \<Rightarrow> (v, []))
      else string_literal cs (v @ [c]))"

text \<open>
  A regular expression that is a sequence of character classes, anchored at the start:
  \<open>/^\d{4}-\d{2}-\d{2}/.test(remaining)\<close>.
\<close>

fun matches_prefix :: "(char \<Rightarrow> bool) list \<Rightarrow> string \<Rightarrow> bool" where
  "matches_prefix [] s = True"
| "matches_prefix (p # ps) [] = False"
| "matches_prefix (p # ps) (c # cs) = (p c \<and> matches_prefix ps cs)"

definition is_hyphen :: "char \<Rightarrow> bool" where
  "is_hyphen c \<longleftrightarrow> c = CHR ''-''"

definition isDatetime :: "string \<Rightarrow> bool" where
  "isDatetime s \<longleftrightarrow>
     matches_prefix [is_digit, is_digit, is_digit, is_digit, is_hyphen,
                     is_digit, is_digit, is_hyphen, is_digit, is_digit] s"

text \<open>The classification of a word, after lower-casing.\<close>

definition classify :: "string \<Rightarrow> 'n token" where
  "classify word =
     (let lowerWord = toLowerCase word
      in if lowerWord \<in> set [''eq'', ''ne'', ''gt'', ''ge'', ''lt'', ''le''] then Operator lowerWord
         else if lowerWord \<in> set [''and'', ''or'', ''not''] then Logical lowerWord
         else if lowerWord \<in> set [''contains'', ''startswith'', ''endswith''] then Function lowerWord
         else if lowerWord \<in> set [''null'', ''true'', ''false''] then Literal lowerWord
         else Identifier word)"

text \<open>\<open>tokens.push(t)\<close> in front of what the rest of the loop produces.\<close>

definition push :: "'a \<Rightarrow> error + 'a list \<Rightarrow> error + 'a list" where
  "push t r = (case r of Inl e \<Rightarrow> Inl e | Inr ts \<Rightarrow> Inr (t # ts))"

text \<open>
  The outer loop of \<open>tokenizeFilter\<close>, on the input from position \<open>i\<close> on: the tokens
  pushed from there, or the error thrown.
\<close>

function tokenizeFilter :: "(string \<Rightarrow> 'n) \<Rightarrow> string \<Rightarrow> error + 'n token list" where
  "tokenizeFilter pf [] = Inr []"
| "tokenizeFilter pf (c # cs) =
     (if is_space c then tokenizeFilter pf cs
      else if c = quote then
        push (String (fst (string_literal cs []))) (tokenizeFilter pf (snd (string_literal cs [])))
      else if is_num_start c then
        (if isDatetime (c # cs) then
           push (Datetime (takeWhile is_datetime_char (c # cs)))
             (tokenizeFilter pf (dropWhile is_datetime_char (c # cs)))
         else
           push (Number (pf (takeWhile is_number_char (c # cs))))
             (tokenizeFilter pf (dropWhile is_number_char (c # cs))))
      else if c = CHR ''('' \<or> c = CHR '')'' then push (Paren [c]) (tokenizeFilter pf cs)
      else if c = CHR '','' then push Comma (tokenizeFilter pf cs)
      else if is_word_start c then
        push (classify (takeWhile is_word_char (c # cs)))
          (tokenizeFilter pf (dropWhile is_word_char (c # cs)))
      else Inl (UnexpectedCharacter c))"
  by pat_completeness auto

lemma string_literal_length: "length (snd (string_literal cs v)) \<le> length cs"
proof (induction cs v rule: string_literal.induct)
  case (1 v)
  show ?case by simp
next
  case (2 c cs v)
  show ?case
  proof (cases "c = quote")
    case q: True
    show ?thesis
    proof (cases cs)
      case Nil
      with q show ?thesis by simp
    next
      case (Cons d ds)
      show ?thesis
      proof (cases "d = quote")
        case True
        from "2.IH"(1) [OF q Cons True] show ?thesis using q Cons True by simp
      next
        case False
        with q Cons show ?thesis by simp
      qed
    qed
  next
    case False
    from "2.IH"(2) [OF False] show ?thesis using False by simp
  qed
qed

lemma num_start_datetime: "is_num_start c \<Longrightarrow> is_datetime_char c"
  by (auto simp: is_num_start_def is_datetime_char_def)

lemma num_start_number: "is_num_start c \<Longrightarrow> is_number_char c"
  by (auto simp: is_num_start_def is_number_char_def)

lemma word_start_word: "is_word_start c \<Longrightarrow> is_word_char c"
  by (simp add: is_word_char_def)

lemma dropWhile_shorter: "P c \<Longrightarrow> length (dropWhile P (c # cs)) < Suc (length cs)"
  by (simp add: le_imp_less_Suc length_dropWhile_le)

lemma string_literal_shorter: "length (snd (string_literal cs v)) < Suc (length cs)"
  by (simp add: le_imp_less_Suc string_literal_length)

termination tokenizeFilter
proof (relation "measure (\<lambda>(pf, s). length s)")
qed (simp_all add: string_literal_shorter dropWhile_shorter num_start_datetime
       num_start_number word_start_word del: dropWhile.simps)

declare tokenizeFilter.simps [simp del]

section \<open>The filter compiler: \<open>parseFilterTokens\<close> and \<open>parseFilter\<close>\<close>

text \<open>
  A field map is the object literal of a resource: RESO field name to backend column, in
  declaration order (the order of \<open>Object.keys\<close> and \<open>Object.values\<close>).
\<close>

type_synonym fieldMap = "(string \<times> string) list"

text \<open>
  A bound parameter value: a string, the result of \<open>parseFloat\<close>, or an integer (a key
  that \<open>parseInt\<close> produced).
\<close>

datatype 'n pval = PStr string | PNum 'n | PInt int

text \<open>
  The \<open>params\<close> object, as its entries in insertion order.  An assignment
  \<open>params[k] = v\<close> replaces the value of an existing key in place and otherwise adds
  the entry at the end; \<open>Object.assign\<close> does so for every entry of its source.
\<close>

type_synonym 'n params = "(string \<times> 'n pval) list"

fun assign :: "string \<Rightarrow> 'v \<Rightarrow> (string \<times> 'v) list \<Rightarrow> (string \<times> 'v) list" where
  "assign k v [] = [(k, v)]"
| "assign k v (p # ps) = (if fst p = k then (k, v) # ps else p # assign k v ps)"

definition Object_assign :: "(string \<times> 'v) list \<Rightarrow> (string \<times> 'v) list \<Rightarrow> (string \<times> 'v) list" where
  "Object_assign target source = foldl (\<lambda>t (k, v). assign k v t) target source"

text \<open>\<open>`filter${paramIndex++}`\<close>\<close>

definition getNextParamName :: "nat \<Rightarrow> string" where
  "getNextParamName paramIndex = ''filter'' @ toString_nat paramIndex"

text \<open>\<open>opMap[token.value]\<close> inside a template string: a missing key prints as \<open>undefined\<close>.\<close>

definition opMap :: "(string \<times> string) list" where
  "opMap = [(''eq'', ''=''), (''ne'', ''!=''), (''gt'', ''>''), (''ge'', ''>=''),
            (''lt'', ''<''), (''le'', ''<='')]"

definition opMap_lookup :: "string \<Rightarrow> string" where
  "opMap_lookup v = (case map_of opMap v of Some s \<Rightarrow> s | None \<Rightarrow> ''undefined'')"

text \<open>The \<open>LIKE\<close> pattern a function binds: only the three functions of the lexer bind one.\<close>

definition like_pattern :: "string \<Rightarrow> string \<Rightarrow> string option" where
  "like_pattern funcName v =
     (if funcName = ''contains'' then Some (''%'' @ v @ ''%'')
      else if funcName = ''startswith'' then Some (v @ ''%'')
      else if funcName = ''endswith'' then Some (''%'' @ v)
      else None)"

text \<open>The text a \<open>literal\<close> token adds to the SQL.\<close>

definition literal_sql :: "string \<Rightarrow> string" where
  "literal_sql v =
     (if v = ''null'' then ''NULL'' else if v = ''true'' then ''1''
      else if v = ''false'' then ''0'' else [])"

text \<open>
  One iteration of the loop of \<open>parseFilterTokens\<close>: \<open>tok\<close> is \<open>tokens[i]\<close> and \<open>ts\<close>
  are the tokens after it; the loop's state is \<open>sql\<close>, \<open>params\<close>, \<open>paramIndex\<close>.  The
  result is the tokens left and the new state, or the error thrown.  The membership test
  \<open>allowedFields.has(f)\<close> and the lookup \<open>fieldMap[f]\<close> are one \<open>map_of\<close>.
\<close>

definition bind_literal ::
  "'n pval \<Rightarrow> 'n token list \<Rightarrow> string \<Rightarrow> 'n params \<Rightarrow> nat
     \<Rightarrow> error + ('n token list \<times> string \<times> 'n params \<times> nat)" where
  "bind_literal v ts sql ps k =
     Inr (ts, sql @ ''@'' @ getNextParamName k, assign (getNextParamName k) v ps, k + 1)"

definition function_call ::
  "fieldMap \<Rightarrow> string \<Rightarrow> 'n token list \<Rightarrow> string \<Rightarrow> 'n params \<Rightarrow> nat
     \<Rightarrow> error + ('n token list \<times> string \<times> 'n params \<times> nat)" where
  "function_call fm funcName ts sql ps k =
     (case ts of
        Paren p # ts1 \<Rightarrow>
          if p \<noteq> ''('' then Inl (ExpectedOpenParen funcName)
          else (case ts1 of
             Identifier fieldName # ts2 \<Rightarrow>
               (case map_of fm fieldName of
                  None \<Rightarrow> Inl (UnknownField fieldName)
                | Some dbField \<Rightarrow>
                   (case ts2 of
                      Comma # ts3 \<Rightarrow>
                        (case ts3 of
                           String v # ts4 \<Rightarrow>
                             (case ts4 of
                                Paren q # ts5 \<Rightarrow>
                                  if q \<noteq> '')'' then Inl (ExpectedCloseParen funcName)
                                  else (case like_pattern funcName v of
                                     Some pat \<Rightarrow>
                                       Inr (ts5, sql @ dbField @ '' LIKE @'' @ getNextParamName k,
                                            assign (getNextParamName k) (PStr pat) ps, k + 1)
                                   | None \<Rightarrow> Inr (ts5, sql, ps, k + 1))
                              | _ \<Rightarrow> Inl (ExpectedCloseParen funcName))
                         | _ \<Rightarrow> Inl (ExpectedStringValue funcName))
                    | _ \<Rightarrow> Inl (ExpectedComma funcName)))
           | _ \<Rightarrow> Inl (ExpectedFieldName funcName))
      | _ \<Rightarrow> Inl (ExpectedOpenParen funcName))"

definition loop_body ::
  "fieldMap \<Rightarrow> 'n token \<Rightarrow> 'n token list \<Rightarrow> string \<Rightarrow> 'n params \<Rightarrow> nat
     \<Rightarrow> error + ('n token list \<times> string \<times> 'n params \<times> nat)" where
  "loop_body fm tok ts sql ps k =
     (case tok of
        Identifier resoField \<Rightarrow>
          (case map_of fm resoField of
             None \<Rightarrow> Inl (UnknownField resoField)
           | Some col \<Rightarrow> Inr (ts, sql @ col, ps, k))
      | Operator v \<Rightarrow> Inr (ts, sql @ '' '' @ opMap_lookup v @ '' '', ps, k)
      | Logical v \<Rightarrow> Inr (ts, sql @ '' '' @ toUpperCase v @ '' '', ps, k)
      | String v \<Rightarrow> bind_literal (PStr v) ts sql ps k
      | Number n \<Rightarrow> bind_literal (PNum n) ts sql ps k
      | Datetime v \<Rightarrow> bind_literal (PStr v) ts sql ps k
      | Literal v \<Rightarrow> Inr (ts, sql @ literal_sql v, ps, k)
      | Function funcName \<Rightarrow> function_call fm funcName ts sql ps k
      | Paren v \<Rightarrow> Inr (ts, sql @ v, ps, k)
      | Comma \<Rightarrow> Inl UnexpectedToken)"

lemma function_call_shorter:
  "function_call fm funcName ts sql ps k = Inr (rest, st) \<Longrightarrow> length rest < length ts"
  by (auto simp: function_call_def split: list.splits token.splits option.splits if_splits)

lemma loop_body_shorter:
  "loop_body fm tok ts sql ps k = Inr (rest, st) \<Longrightarrow> length rest \<le> length ts"
  by (auto simp: loop_body_def bind_literal_def dest: function_call_shorter
      split: token.splits option.splits)

text \<open>The loop \<open>while (i < tokens.length)\<close>, on the tokens from position \<open>i\<close> on.\<close>

function parseFilterTokens_loop ::
  "fieldMap \<Rightarrow> 'n token list \<Rightarrow> string \<Rightarrow> 'n params \<Rightarrow> nat \<Rightarrow> error + (string \<times> 'n params)" where
  "parseFilterTokens_loop fm [] sql ps k = Inr (sql, ps)"
| "parseFilterTokens_loop fm (tok # ts) sql ps k =
     (case loop_body fm tok ts sql ps k of
        Inl e \<Rightarrow> Inl e
      | Inr (rest, sql', ps', k') \<Rightarrow> parseFilterTokens_loop fm rest sql' ps' k')"
  by pat_completeness auto
termination
  by (relation "measure (\<lambda>(fm, ts, sql, ps, k). length ts)")
     (auto dest: loop_body_shorter intro: le_imp_less_Suc)

definition parseFilterTokens :: "'n token list \<Rightarrow> fieldMap \<Rightarrow> error + (string \<times> 'n params)" where
  "parseFilterTokens tokens fm = parseFilterTokens_loop fm tokens [] [] 0"

text \<open>
  \<open>parseFilter\<close>: an absent or empty \<open>$filter\<close> compiles to nothing; every error of the
  lexer and of the compiler is rethrown as \<open>Invalid $filter: ...\<close>.
\<close>

definition parseFilter :: "(string \<Rightarrow> 'n) \<Rightarrow> string option \<Rightarrow> fieldMap \<Rightarrow> error + (string \<times> 'n params)" where
  "parseFilter pf filter_str fm =
     (case filter_str of
        None \<Rightarrow> Inr ([], [])
      | Some f \<Rightarrow>
          if f = [] then Inr ([], [])
          else (case tokenizeFilter pf f of
                  Inl e \<Rightarrow> Inl (InvalidFilter e)
                | Inr tokens \<Rightarrow>
                    (case parseFilterTokens tokens fm of
                       Inl e \<Rightarrow> Inl (InvalidFilter e)
                     | Inr r \<Rightarrow> Inr r)))"

section \<open>The clause parsers: \<open>parseSelect\<close>, \<open>parseOrderBy\<close>, \<open>parseExpand\<close>\<close>

text \<open>
  \<open>xs.map(f)\<close> and \<open>for (const x of xs)\<close> with a body that may throw: the results in
  order, or the first error.
\<close>

fun map_throw :: "('a \<Rightarrow> error + 'b) \<Rightarrow> 'a list \<Rightarrow> error + 'b list" where
  "map_throw f [] = Inr []"
| "map_throw f (x # xs) =
     (case f x of
        Inl e \<Rightarrow> Inl e
      | Inr y \<Rightarrow> (case map_throw f xs of Inl e \<Rightarrow> Inl e | Inr ys \<Rightarrow> Inr (y # ys)))"

text \<open>\<open>Object.values(fieldMap).join(', ')\<close>\<close>

definition all_columns :: "fieldMap \<Rightarrow> string" where
  "all_columns fm = join '', '' (map snd fm)"

definition select_field :: "fieldMap \<Rightarrow> string \<Rightarrow> error + string" where
  "select_field fm field =
     (case map_of fm field of
        None \<Rightarrow> Inl (InvalidSelectField field)
      | Some col \<Rightarrow> Inr col)"

definition parseSelect :: "string option \<Rightarrow> fieldMap \<Rightarrow> error + string" where
  "parseSelect select fm =
     (case select of
        None \<Rightarrow> Inr (all_columns fm)
      | Some s \<Rightarrow>
          if s = [] then Inr (all_columns fm)
          else (case map_throw (select_field fm) (map trim (split_on CHR '','' s)) of
                  Inl e \<Rightarrow> Inl e
                | Inr dbFields \<Rightarrow>
                    Inr (if length dbFields > 0 then join '', '' dbFields else all_columns fm)))"

text \<open>
  One entry of \<open>$orderby\<close>: \<open>const [field, direction] = part.trim().split(/\s+/)\<close>.  A
  missing \<open>direction\<close> is \<open>undefined\<close>, which \<open>?.\<close> lets through to the comparison.
\<close>

definition orderby_part :: "fieldMap \<Rightarrow> string \<Rightarrow> error + string" where
  "orderby_part fm part =
     (case split_ws (trim part) of
        [] \<Rightarrow> Inl (InvalidOrderByField ''undefined'')
      | field # rest \<Rightarrow>
          (case map_of fm field of
             None \<Rightarrow> Inl (InvalidOrderByField field)
           | Some dbField \<Rightarrow>
               (let direction = (case rest of [] \<Rightarrow> None | d # _ \<Rightarrow> Some d);
                    dir = (if map_option toLowerCase direction = Some ''desc''
                           then ''DESC'' else ''ASC'')
                in Inr (dbField @ '' '' @ dir))))"

definition parseOrderBy :: "string option \<Rightarrow> fieldMap \<Rightarrow> error + string" where
  "parseOrderBy orderby fm =
     (case orderby of
        None \<Rightarrow> Inr []
      | Some s \<Rightarrow>
          if s = [] then Inr []
          else (case map_throw (orderby_part fm) (split_on CHR '','' s) of
                  Inl e \<Rightarrow> Inl e
                | Inr parts \<Rightarrow> Inr (join '', '' parts)))"

definition check_expansion :: "string list \<Rightarrow> string \<Rightarrow> error + string" where
  "check_expansion allowed exp = (if exp \<in> set allowed then Inr exp else Inl (InvalidExpand exp))"

definition parseExpand :: "string option \<Rightarrow> string list \<Rightarrow> error + string list" where
  "parseExpand expand allowedExpansions =
     (case expand of
        None \<Rightarrow> Inr []
      | Some s \<Rightarrow>
          if s = [] then Inr []
          else map_throw (check_expansion allowedExpansions) (map trim (split_on CHR '','' s)))"

section \<open>The query builder: \<open>buildQuery\<close>\<close>

text \<open>
  \<open>parseInt(x)\<close> with no radix, on a query option that is a string or absent
  (\<open>undefined\<close>, which reads as the text \<open>undefined\<close>): leading white space, a sign, a
  \<open>0x\<close> prefix that selects radix 16, then the longest run of digits.  \<open>None\<close> is
  \<open>NaN\<close>.  The value is the exact integer, which is the number JavaScript computes as
  long as its magnitude is at most \<open>2 ^ 53\<close>; beyond that JavaScript rounds to the
  nearest double.
\<close>

definition digit_value :: "char \<Rightarrow> nat option" where
  "digit_value c =
     map_of (zip ''0123456789abcdefABCDEF''
        [0, 1, 2, 3, 4, 5, 6, 7, 8, 9, 10, 11, 12, 13, 14, 15, 10, 11, 12, 13, 14, 15]) c"

definition is_radix_digit :: "nat \<Rightarrow> char \<Rightarrow> bool" where
  "is_radix_digit R c = (case digit_value c of None \<Rightarrow> False | Some d \<Rightarrow> d < R)"

definition digits_value :: "nat \<Rightarrow> string \<Rightarrow> nat" where
  "digits_value R z = foldl (\<lambda>acc c. acc * R + (case digit_value c of Some d \<Rightarrow> d | None \<Rightarrow> 0)) 0 z"

definition parseInt_digits :: "int \<Rightarrow> nat \<Rightarrow> string \<Rightarrow> int option" where
  "parseInt_digits sign R s =
     (let z = takeWhile (is_radix_digit R) s
      in if z = [] then None else Some (sign * int (digits_value R z)))"

definition parseInt_unsigned :: "int \<Rightarrow> string \<Rightarrow> int option" where
  "parseInt_unsigned sign s =
     (case s of
        a # b # rest \<Rightarrow>
          if a = CHR ''0'' \<and> (b = CHR ''x'' \<or> b = CHR ''X'') then parseInt_digits sign 16 rest
          else parseInt_digits sign 10 s
      | _ \<Rightarrow> parseInt_digits sign 10 s)"

definition parseInt_string :: "string \<Rightarrow> int option" where
  "parseInt_string inputString =
     (case dropWhile is_space inputString of
        [] \<Rightarrow> None
      | c # cs \<Rightarrow>
          if c = CHR ''-'' then parseInt_unsigned (- 1) cs
          else if c = CHR ''+'' then parseInt_unsigned 1 cs
          else parseInt_unsigned 1 (c # cs))"

definition parseInt :: "string option \<Rightarrow> int option" where
  "parseInt x = (case x of None \<Rightarrow> None | Some s \<Rightarrow> parseInt_string s)"

text \<open>\<open>n || d\<close> for a number \<open>n\<close>: \<open>NaN\<close> and \<open>0\<close> are falsy.\<close>

definition or_number :: "int option \<Rightarrow> int \<Rightarrow> int" where
  "or_number n d = (case n of None \<Rightarrow> d | Some i \<Rightarrow> if i = 0 then d else i)"

text \<open>The truth value of an optional string: \<open>undefined\<close> and the empty string are falsy.\<close>

definition truthy :: "string option \<Rightarrow> bool" where
  "truthy x = (case x of None \<Rightarrow> False | Some s \<Rightarrow> s \<noteq> [])"

text \<open>The raw option map \<open>req.query\<close>: each option is a string or absent.\<close>

record query =
  q_top :: "string option"
  q_skip :: "string option"
  q_count :: "string option"
  q_select :: "string option"
  q_filter :: "string option"
  q_orderby :: "string option"
  q_expand :: "string option"

text \<open>A key value: the number \<open>parseInt\<close> gave, or a string.\<close>

datatype key = KInt int | KStr string

definition key_truthy :: "key \<Rightarrow> bool" where
  "key_truthy k = (case k of KInt i \<Rightarrow> i \<noteq> 0 | KStr s \<Rightarrow> s \<noteq> [])"

definition key_pval :: "key \<Rightarrow> 'n pval" where
  "key_pval k = (case k of KInt i \<Rightarrow> PInt i | KStr s \<Rightarrow> PStr s)"

definition key_text :: "key \<Rightarrow> string" where
  "key_text k = (case k of KInt i \<Rightarrow> toString_int i | KStr s \<Rightarrow> s)"

text \<open>\<open>baseWhere\<close>: \<open>{ sql, params }\<close>, both optional.\<close>

record 'n baseWhere =
  bw_sql :: "string option"
  bw_params :: "'n params option"

record 'n options =
  table :: string
  fieldMap :: fieldMap
  query :: query
  keyField :: string
  keyValue :: "key option"
  baseUrl :: "string option"
  baseWhere :: "'n baseWhere option"

record 'n plan =
  dataQuery :: string
  countQuery :: "string option"
  params :: "'n params"
  top :: int
  skip :: int
  nextLinkBuilder :: "(int \<Rightarrow> string option) option"

text \<open>\<open>obj[k]\<close> inside a template string.\<close>

definition column_of :: "fieldMap \<Rightarrow> string \<Rightarrow> string" where
  "column_of fm k = (case map_of fm k of Some c \<Rightarrow> c | None \<Rightarrow> ''undefined'')"

text \<open>\<open>Object.values(fieldMap)[0]\<close> inside a template string.\<close>

definition first_column :: "fieldMap \<Rightarrow> string" where
  "first_column fm = (case fm of [] \<Rightarrow> ''undefined'' | (k, c) # _ \<Rightarrow> c)"

text \<open>A line break of a template string and the four spaces that follow it.\<close>

definition nl :: string where
  "nl = newline # ''    ''"

definition data_sql :: "string \<Rightarrow> string \<Rightarrow> string \<Rightarrow> string \<Rightarrow> int \<Rightarrow> int \<Rightarrow> string" where
  "data_sql selectFields tbl whereClause orderByClause skp tp =
     nl @ ''SELECT '' @ selectFields @
     nl @ ''FROM '' @ tbl @
     nl @ whereClause @
     nl @ orderByClause @
     nl @ ''OFFSET '' @ toString_int skp @ '' ROWS'' @
     nl @ ''FETCH NEXT '' @ toString_int tp @ '' ROWS ONLY'' @
     newline # ''  ''"

definition count_sql :: "string \<Rightarrow> string \<Rightarrow> string" where
  "count_sql tbl whereClause =
     nl @ ''SELECT COUNT(*) as total'' @
     nl @ ''FROM '' @ tbl @
     nl @ whereClause @
     newline # ''  ''"

text \<open>
  \<open>URLSearchParams\<close>: the list of name-value pairs.  \<open>set\<close> replaces the value of the
  first pair with that name and removes the others, or appends a new pair.  \<open>toString\<close>
  is the \<open>application/x-www-form-urlencoded\<close> serialiser: over the UTF-8 bytes of names
  and values, a space becomes \<open>+\<close>, the letters and digits and \<open>* - . _\<close> stay, every
  other byte becomes \<open>%XX\<close> in upper-case hexadecimal.
\<close>

type_synonym URLSearchParams = "(string \<times> string) list"

fun usp_set :: "string \<Rightarrow> string \<Rightarrow> URLSearchParams \<Rightarrow> URLSearchParams" where
  "usp_set k v [] = [(k, v)]"
| "usp_set k v (p # ps) =
     (if fst p = k then (k, v) # filter (\<lambda>q. fst q \<noteq> k) ps else p # usp_set k v ps)"

definition hex_char :: "nat \<Rightarrow> char" where
  "hex_char d = ''0123456789ABCDEF'' ! d"

definition percent_byte :: "nat \<Rightarrow> string" where
  "percent_byte b = [CHR ''%'', hex_char (b div 16), hex_char (b mod 16)]"

definition urlencode_char :: "char \<Rightarrow> string" where
  "urlencode_char c =
     (if c = CHR '' '' then ''+''
      else if is_word_char c \<or> c \<in> set ''*-.'' then [c]
      else (let n = (of_char c :: nat)
            in if n < 128 then percent_byte n
               else percent_byte (192 + n div 64) @ percent_byte (128 + n mod 64)))"

definition urlencode :: "string \<Rightarrow> string" where
  "urlencode s = concat (map urlencode_char s)"

definition usp_toString :: "URLSearchParams \<Rightarrow> string" where
  "usp_toString qp = join ''&'' (map (\<lambda>(k, v). urlencode k @ ''='' @ urlencode v) qp)"

text \<open>\<open>if (x) queryParams.set(name, x)\<close>\<close>

definition set_if :: "string \<Rightarrow> string option \<Rightarrow> URLSearchParams \<Rightarrow> URLSearchParams" where
  "set_if name x qp = (case x of None \<Rightarrow> qp | Some v \<Rightarrow> if v = [] then qp else usp_set name v qp)"

text \<open>The closure \<open>nextLinkBuilder\<close>, with the variables it captures as arguments.\<close>

definition nextLink :: "string \<Rightarrow> query \<Rightarrow> int \<Rightarrow> int \<Rightarrow> int \<Rightarrow> string option" where
  "nextLink base q skp tp totalCount =
     (if skp + tp < totalCount then
        (let nextSkip = skp + tp;
             qp0 = usp_set ''$top'' (toString_int tp) [];
             qp1 = usp_set ''$skip'' (toString_int nextSkip) qp0;
             qp2 = set_if ''$select'' (q_select q) qp1;
             qp3 = set_if ''$filter'' (q_filter q) qp2;
             qp4 = set_if ''$orderby'' (q_orderby q) qp3;
             qp5 = set_if ''$count'' (q_count q) qp4
         in Some (base @ ''?'' @ usp_toString qp5))
      else None)"

text \<open>The base filter: applied when \<open>baseWhere?.sql\<close> is truthy.\<close>

definition base_conditions :: "'n baseWhere option \<Rightarrow> string list \<times> 'n params" where
  "base_conditions bw =
     (case bw of
        None \<Rightarrow> ([], [])
      | Some b \<Rightarrow>
          if truthy (bw_sql b)
          then ([case bw_sql b of Some s \<Rightarrow> s | None \<Rightarrow> []],
                Object_assign [] (case bw_params b of Some p \<Rightarrow> p | None \<Rightarrow> []))
          else ([], []))"

text \<open>The branch \<open>else if (query.$filter)\<close>.\<close>

definition filter_conditions ::
  "(string \<Rightarrow> 'n) \<Rightarrow> 'n options \<Rightarrow> string list \<times> 'n params \<Rightarrow> error + (string list \<times> 'n params)" where
  "filter_conditions pf opts cp =
     (if truthy (q_filter (query opts)) then
        (case parseFilter pf (q_filter (query opts)) (fieldMap opts) of
           Inl e \<Rightarrow> Inl e
         | Inr flt \<Rightarrow>
             if fst flt \<noteq> [] then Inr (fst cp @ [fst flt], Object_assign (snd cp) (snd flt))
             else Inr cp)
      else Inr cp)"

text \<open>\<open>whereConditions\<close> and \<open>params\<close> after the base filter, the key and \<open>$filter\<close>.\<close>

definition where_conditions ::
  "(string \<Rightarrow> 'n) \<Rightarrow> 'n options \<Rightarrow> error + (string list \<times> 'n params)" where
  "where_conditions pf opts =
     (let cp = base_conditions (baseWhere opts)
      in case keyValue opts of
           None \<Rightarrow> filter_conditions pf opts cp
         | Some k \<Rightarrow>
             if key_truthy k
             then Inr (fst cp @ [column_of (fieldMap opts) (keyField opts) @ '' = @keyValue''],
                       assign ''keyValue'' (key_pval k) (snd cp))
             else filter_conditions pf opts cp)"

definition where_clause :: "string list \<Rightarrow> string" where
  "where_clause conds = (if length conds > 0 then ''WHERE '' @ join '' AND '' conds else [])"

definition order_by_clause :: "fieldMap \<Rightarrow> string \<Rightarrow> string" where
  "order_by_clause fm orderBy =
     (if orderBy \<noteq> [] then ''ORDER BY '' @ orderBy else ''ORDER BY '' @ first_column fm)"

definition buildQuery :: "(string \<Rightarrow> 'n) \<Rightarrow> 'n options \<Rightarrow> error + 'n plan" where
  "buildQuery pf opts =
     (let q = query opts;
          fm = fieldMap opts;
          tp = min (max (or_number (parseInt (q_top q)) 100) 1) 1000;
          skp = max (or_number (parseInt (q_skip q)) 0) 0;
          cnt = (q_count q = Some ''true'')
      in case parseSelect (q_select q) fm of
           Inl e \<Rightarrow> Inl e
         | Inr selectFields \<Rightarrow>
      (case where_conditions pf opts of
           Inl e \<Rightarrow> Inl e
         | Inr cp \<Rightarrow>
      (case parseOrderBy (q_orderby q) fm of
           Inl e \<Rightarrow> Inl e
         | Inr orderBy \<Rightarrow>
             Inr \<lparr> dataQuery = data_sql selectFields (table opts) (where_clause (fst cp))
                                (order_by_clause fm orderBy) skp tp,
                   countQuery = (if cnt then Some (count_sql (table opts) (where_clause (fst cp)))
                                 else None),
                   params = snd cp,
                   top = tp,
                   skip = skp,
                   nextLinkBuilder =
                     (if truthy (baseUrl opts)
                      then Some (nextLink (case baseUrl opts of Some b \<Rightarrow> b | None \<Rightarrow> []) q skp tp)
                      else None) \<rparr>)))"

section \<open>The resource drivers\<close>

text \<open>
  A database row is the list of its columns in order; \<open>db.query(sql, params)\<close> is a
  function of the database gateway that gives the record set or fails.  A handler's
  result is the list of the queries it issued, in order, and what it did with the response.
\<close>

type_synonym 'v row = "(string \<times> 'v) list"

type_synonym ('n, 'v) db = "string \<Rightarrow> 'n params \<Rightarrow> error + 'v row list"

type_synonym 'n issued = "(string \<times> 'n params) list"

text \<open>
  What a handler does with the response: a 404 with its message, the JSON of one entity
  (its fields and \<open>@odata.context\<close>), the JSON of a collection (\<open>@odata.context\<close>,
  \<open>@odata.count\<close> when counted, \<open>value\<close>), or \<open>next(err)\<close>.  \<open>Found\<close> is the
  Property entity handler after its query returned a row: the row and the expansions it
  goes on with.
\<close>

datatype 'v outcome =
    NotFound string
  | Entity "'v row" string
  | Collection string "'v option option" "'v row list"
  | Found "'v row" "string list"
  | Failed error

record request =
  req_key :: string
  req_query :: query
  req_protocol :: string
  req_host :: string
  req_baseUrl :: string

text \<open>\<open>`${req.protocol}://${req.get('host')}${req.baseUrl}`\<close>\<close>

definition request_baseUrl :: "request \<Rightarrow> string" where
  "request_baseUrl req = req_protocol req @ ''://'' @ req_host req @ req_baseUrl req"

text \<open>
  \<open>Object.fromEntries(Object.entries(fieldMap).map(([k, v]) => [v, k]))\<close>, and the
  reshaping of a row with it.  The lookup \<open>reverseFieldMap[dbField]\<close> is modelled on the
  object's own keys: a column named like a member of \<open>Object.prototype\<close> is outside the
  model.
\<close>

definition reverse_of :: "fieldMap \<Rightarrow> fieldMap" where
  "reverse_of fm = foldl (\<lambda>acc (k, v). assign v k acc) [] fm"

definition transformRow :: "'v row \<Rightarrow> fieldMap \<Rightarrow> 'v row" where
  "transformRow r reverseFieldMap =
     foldl (\<lambda>result (dbField, v).
              case map_of reverseFieldMap dbField of
                None \<Rightarrow> result
              | Some resoField \<Rightarrow> if resoField \<noteq> [] then assign resoField v result else result)
       [] r"

text \<open>
  \<open>if (key.startsWith("'") && key.endsWith("'")) key = key.slice(1, -1)\<close>
\<close>

definition strip_quotes :: "string \<Rightarrow> string" where
  "strip_quotes k = (if k \<noteq> [] \<and> hd k = quote \<and> last k = quote then butlast (tl k) else k)"

text \<open>\<open>key = parseInt(key) || key\<close>\<close>

definition parse_key :: "string \<Rightarrow> key" where
  "parse_key k =
     (case parseInt_string k of
        None \<Rightarrow> KStr k
      | Some n \<Rightarrow> if n = 0 then KStr k else KInt n)"

text \<open>The two queries of a list handler: \<open>Promise.all([db.query(dataQuery, params),
  countQuery ? db.query(countQuery, params) : Promise.resolve(null)])\<close>.\<close>

definition execute_queries ::
  "('n, 'v) db \<Rightarrow> 'n plan \<Rightarrow> 'n issued \<times> (error + ('v row list \<times> 'v row list option))" where
  "execute_queries db p =
     (case countQuery p of
        None \<Rightarrow>
          ([(dataQuery p, params p)],
           case db (dataQuery p) (params p) of
             Inl e \<Rightarrow> Inl e
           | Inr dataResult \<Rightarrow> Inr (dataResult, None))
      | Some cq \<Rightarrow>
          ([(dataQuery p, params p), (cq, params p)],
           case db (dataQuery p) (params p) of
             Inl e \<Rightarrow> Inl e
           | Inr dataResult \<Rightarrow>
               (case db cq (params p) of
                  Inl e \<Rightarrow> Inl e
                | Inr countResult \<Rightarrow> Inr (dataResult, Some countResult))))"

text \<open>\<open>countResult.recordset[0].total\<close>: fails on an empty record set.\<close>

definition total_of :: "'v row list \<Rightarrow> error + 'v option" where
  "total_of recordset = (case recordset of [] \<Rightarrow> Inl TypeError | r # _ \<Rightarrow> Inr (map_of r ''total''))"

subsection \<open>Member\<close>

definition member_TABLE :: string where
  "member_TABLE = ''idc_agy.AGY_AGENT''"

definition member_KEY_FIELD :: string where
  "member_KEY_FIELD = ''MemberKey''"

definition member_fieldMap :: fieldMap where
  "member_fieldMap =
     [(''MemberKey'', ''AGENTKEY''),
      (''MemberMlsId'', ''AGYAGENTID''),
      (''MemberFirstName'', ''GIVENNAME''),
      (''MemberMiddleName'', ''MIDDLENAME''),
      (''MemberLastName'', ''SURNAME''),
      (''MemberEmail'', ''EMAILADDRESS1''),
      (''MemberMobilePhone'', ''MOBILEPHONE''),
      (''MemberOfficePhone'', ''BUSINESSPHONE''),
      (''MemberAddress1'', ''STREET''),
      (''MemberCity'', ''CITY''),
      (''MemberStateOrProvince'', ''STATE''),
      (''MemberPostalCode'', ''ZIPCODE''),
      (''MemberStateLicense'', ''LICENSENO''),
      (''MemberTitle'', ''PROFESSIONALTITLE''),
      (''MemberComments'', ''BIOGRAPHY''),
      (''MemberPhotoURL'', ''PICTURE''),
      (''MemberWebsiteURL'', ''AGENTPROFILEURL''),
      (''OfficeKey'', ''PARENTOFFICE''),
      (''ModificationTimestamp'', ''LASTMODIFIED'')]"

text \<open>The options that the list handler passes to \<open>buildQuery\<close>.\<close>

definition member_list_options :: "request \<Rightarrow> 'n options" where
  "member_list_options req =
     \<lparr> table = member_TABLE, fieldMap = member_fieldMap, query = req_query req,
       keyField = member_KEY_FIELD, keyValue = None, baseUrl = None, baseWhere = None \<rparr>"

definition member_list :: "(string \<Rightarrow> 'n) \<Rightarrow> ('n, 'v) db \<Rightarrow> request \<Rightarrow> 'n issued \<times> 'v outcome" where
  "member_list pf db req =
     (case buildQuery pf (member_list_options req) of
        Inl e \<Rightarrow> ([], Failed e)
      | Inr p \<Rightarrow>
          (case execute_queries db p of
             (iss, Inl e) \<Rightarrow> (iss, Failed e)
           | (iss, Inr (dataResult, countResult)) \<Rightarrow>
               (let v = map (\<lambda>r. transformRow r (reverse_of member_fieldMap)) dataResult;
                    ctx = request_baseUrl req @ ''/$metadata#Member''
                in case countResult of
                     None \<Rightarrow> (iss, Collection ctx None v)
                   | Some cr \<Rightarrow>
                       (case total_of cr of
                          Inl e \<Rightarrow> (iss, Failed e)
                        | Inr t \<Rightarrow> (iss, Collection ctx (Some t) v)))))"

definition member_get :: "(string \<Rightarrow> 'n) \<Rightarrow> ('n, 'v) db \<Rightarrow> request \<Rightarrow> 'n issued \<times> 'v outcome" where
  "member_get pf db req =
     (let k = parse_key (strip_quotes (req_key req))
      in case buildQuery pf \<lparr> table = member_TABLE, fieldMap = member_fieldMap,
                                query = req_query req, keyField = member_KEY_FIELD,
                                keyValue = Some k, baseUrl = None, baseWhere = None \<rparr> of
           Inl e \<Rightarrow> ([], Failed e)
         | Inr p \<Rightarrow>
             (case db (dataQuery p) (params p) of
                Inl e \<Rightarrow> ([(dataQuery p, params p)], Failed e)
              | Inr recordset \<Rightarrow>
                  (case recordset of
                     [] \<Rightarrow> ([(dataQuery p, params p)],
                            NotFound (''Member with key '' @ [quote] @ key_text k @ [quote] @ '' not found''))
                   | r # _ \<Rightarrow> ([(dataQuery p, params p)],
                               Entity (transformRow r (reverse_of member_fieldMap))
                                 (request_baseUrl req @ ''/$metadata#Member/$entity'')))))"

subsection \<open>Office\<close>

definition office_TABLE :: string where
  "office_TABLE = ''idc_agy.AGY_OFFICE''"

definition office_KEY_FIELD :: string where
  "office_KEY_FIELD = ''OfficeKey''"

definition office_fieldMap :: fieldMap where
  "office_fieldMap =
     [(''OfficeKey'', ''OFFICEKEY''),
      (''OfficeName'', ''OFFICENAME''),
      (''OfficeAddress1'', ''STREET''),
      (''OfficeCity'', ''CITY''),
      (''OfficeStateOrProvince'', ''STATE''),
      (''OfficePostalCode'', ''ZIPCODE''),
      (''OfficeCountry'', ''COUNTRY''),
      (''OfficePhone'', ''PHONE''),
      (''OfficeFax'', ''FAX''),
      (''OfficeEmail'', ''EMAILADDRESS1''),
      (''OfficeLatitude'', ''IDCLATITUDE''),
      (''OfficeLongitude'', ''IDCLONGITUDE''),
      (''ModificationTimestamp'', ''LASTMODIFIED'')]"

definition office_list_options :: "request \<Rightarrow> 'n options" where
  "office_list_options req =
     \<lparr> table = office_TABLE, fieldMap = office_fieldMap, query = req_query req,
       keyField = office_KEY_FIELD, keyValue = None, baseUrl = None, baseWhere = None \<rparr>"

definition office_list :: "(string \<Rightarrow> 'n) \<Rightarrow> ('n, 'v) db \<Rightarrow> request \<Rightarrow> 'n issued \<times> 'v outcome" where
  "office_list pf db req =
     (case buildQuery pf (office_list_options req) of
        Inl e \<Rightarrow> ([], Failed e)
      | Inr p \<Rightarrow>
          (case execute_queries db p of
             (iss, Inl e) \<Rightarrow> (iss, Failed e)
           | (iss, Inr (dataResult, countResult)) \<Rightarrow>
               (let v = map (\<lambda>r. transformRow r (reverse_of office_fieldMap)) dataResult;
                    ctx = request_baseUrl req @ ''/$metadata#Office''
                in case countResult of
                     None \<Rightarrow> (iss, Collection ctx None v)
                   | Some cr \<Rightarrow>
                       (case total_of cr of
                          Inl e \<Rightarrow> (iss, Failed e)
                        | Inr t \<Rightarrow> (iss, Collection ctx (Some t) v)))))"

definition office_get :: "(string \<Rightarrow> 'n) \<Rightarrow> ('n, 'v) db \<Rightarrow> request \<Rightarrow> 'n issued \<times> 'v outcome" where
  "office_get pf db req =
     (let k = parse_key (strip_quotes (req_key req))
      in case buildQuery pf \<lparr> table = office_TABLE, fieldMap = office_fieldMap,
                                query = req_query req, keyField = office_KEY_FIELD,
                                keyValue = Some k, baseUrl = None, baseWhere = None \<rparr> of
           Inl e \<Rightarrow> ([], Failed e)
         | Inr p \<Rightarrow>
             (case db (dataQuery p) (params p) of
                Inl e \<Rightarrow> ([(dataQuery p, params p)], Failed e)
              | Inr recordset \<Rightarrow>
                  (case recordset of
                     [] \<Rightarrow> ([(dataQuery p, params p)],
                            NotFound (''Office with key '' @ [quote] @ key_text k @ [quote] @ '' not found''))
                   | r # _ \<Rightarrow> ([(dataQuery p, params p)],
                               Entity (transformRow r (reverse_of office_fieldMap))
                                 (request_baseUrl req @ ''/$metadata#Office/$entity'')))))"

subsection \<open>Property\<close>

text \<open>
  The key codec \<open>encodeListingKey\<close>.  \<open>crypto.createHash('sha256').update(str).digest()\<close>
  hashes the UTF-8 encoding of \<open>str\<close>; the hash function of the \<open>crypto\<close> module is a
  parameter \<open>sha256\<close> from bytes to bytes.  \<open>hash.readBigUInt64BE(0)\<close> reads the bytes
  0 to 7 of the buffer, most significant first, and fails on a buffer with fewer than 8
  bytes.  Its result and the mask are BigInts: unbounded integers.
\<close>

definition utf8_char :: "char \<Rightarrow> 8 word list" where
  "utf8_char c =
     (let n = (of_char c :: nat)
      in if n < 128 then [of_nat n] else [of_nat (192 + n div 64), of_nat (128 + n mod 64)])"

definition utf8 :: "string \<Rightarrow> 8 word list" where
  "utf8 s = concat (map utf8_char s)"

definition readBigUInt64BE :: "8 word list \<Rightarrow> error + nat" where
  "readBigUInt64BE buf =
     (if length buf < 8 then Inl RangeError
      else Inr (foldl (\<lambda>acc b. acc * 256 + unat b) 0 (take 8 buf)))"

definition encodeListingKey :: "(8 word list \<Rightarrow> 8 word list) \<Rightarrow> string \<Rightarrow> error + string option" where
  "encodeListingKey sha256 str =
     (if str = [] then Inr None
      else (case readBigUInt64BE (sha256 (utf8 str)) of
              Inl e \<Rightarrow> Inl e
            | Inr n \<Rightarrow> Inr (Some (toString_nat (and n 0x7FFFFFFFFFFFFFFF)))))"

definition property_TABLE :: string where
  "property_TABLE = ''idc_agy.AGY_CMNCMN_VW''"

definition property_KEY_FIELD :: string where
  "property_KEY_FIELD = ''ListingKey''"

definition ALLOWED_EXPANSIONS :: "string list" where
  "ALLOWED_EXPANSIONS = [''ListAgent'', ''ListOffice'']"

definition property_fieldMap :: fieldMap where
  "property_fieldMap =
     [(''ListingKey'', ''IDCPROPERTYID''),
      (''ListingId'', ''IDCMLSNUMBER''),
      (''OriginatingSystemName'', ''MLSBOARD''),
      (''ListPrice'', ''IDCLISTPRICE''),
      (''StandardStatus'', ''IDCSTATUS''),
      (''ListingContractDate'', ''IDCLISTDATE''),
      (''PropertyType'', ''PROPERTYTYPE''),
      (''YearBuilt'', ''YEARBUILT''),
      (''BedroomsTotal'', ''BEDS''),
      (''BathroomsTotalInteger'', ''BATHSTOTAL''),
      (''LivingArea'', ''SQFT''),
      (''LotSizeArea'', ''LOTSIZE''),
      (''LotSizeAcres'', ''ACRES''),
      (''UnparsedAddress'', ''IDCADDRESS''),
      (''StreetNumber'', ''STREETNUMBER''),
      (''StreetName'', ''STREETNAME''),
      (''City'', ''CITY''),
      (''StateOrProvince'', ''STATE''),
      (''PostalCode'', ''ZIPCODE''),
      (''CountyOrParish'', ''COUNTY''),
      (''Country'', ''COUNTRY''),
      (''Latitude'', ''IDCLATITUDE''),
      (''Longitude'', ''IDCLONGITUDE''),
      (''PublicRemarks'', ''IDCREMARKS''),
      (''ListAgentKey'', ''IDCLISTAGENTKEY''),
      (''ListOfficeKey'', ''IDCLISTOFFICEKEY''),
      (''ListingURL'', ''LISTINGDETAILURL''),
      (''ModificationTimestamp'', ''LASTMODIFIED''),
      (''PhotoCount'', ''MLSPHOTOCOUNT''),
      (''PhotosChangeTimestamp'', ''PHOTOMODIFIEDDATE''),
      (''_PhotosXML'', ''PROPERTYPHOTOS'')]"

text \<open>
  The list handler of Property, up to its two queries: \<open>$expand\<close> is parsed first, the
  plan is built with the URL of the collection as \<open>baseUrl\<close>, and the queries are issued.
  \<open>Listed\<close> is what the rest of the handler (reshaping, expansions, the envelope) works
  with: the data rows, the count rows when counted, the expansions and the plan's
  next-link closure.
\<close>

datatype 'v listing =
    Listed "'v row list" "'v row list option" "string list" "(int \<Rightarrow> string option) option"
  | ListFailed error

definition property_list_options :: "request \<Rightarrow> 'n options" where
  "property_list_options req =
     \<lparr> table = property_TABLE, fieldMap = property_fieldMap, query = req_query req,
       keyField = property_KEY_FIELD, keyValue = None,
       baseUrl = Some (request_baseUrl req @ ''/Property''), baseWhere = None \<rparr>"

definition property_list :: "(string \<Rightarrow> 'n) \<Rightarrow> ('n, 'v) db \<Rightarrow> request \<Rightarrow> 'n issued \<times> 'v listing" where
  "property_list pf db req =
     (case parseExpand (q_expand (req_query req)) ALLOWED_EXPANSIONS of
        Inl e \<Rightarrow> ([], ListFailed e)
      | Inr expansions \<Rightarrow>
     (case buildQuery pf (property_list_options req) of
        Inl e \<Rightarrow> ([], ListFailed e)
      | Inr p \<Rightarrow>
          (case execute_queries db p of
             (iss, Inl e) \<Rightarrow> (iss, ListFailed e)
           | (iss, Inr (dataResult, countResult)) \<Rightarrow>
               (iss, Listed dataResult countResult expansions (nextLinkBuilder p)))))"

text \<open>
  The \<open>@odata.nextLink\<close> that the list handler of Property puts into the envelope when
  its queries succeed and the count query gives \<open>totalCount\<close>: there is none without a
  count result, and otherwise it is the result of the plan's closure, if that is not
  \<open>null\<close>.
\<close>

definition property_nextLink :: "(string \<Rightarrow> 'n) \<Rightarrow> request \<Rightarrow> int \<Rightarrow> error + string option" where
  "property_nextLink pf req totalCount =
     (case parseExpand (q_expand (req_query req)) ALLOWED_EXPANSIONS of
        Inl e \<Rightarrow> Inl e
      | Inr expansions \<Rightarrow>
     (case buildQuery pf (property_list_options req) of
        Inl e \<Rightarrow> Inl e
      | Inr p \<Rightarrow>
          Inr (case countQuery p of
                 None \<Rightarrow> None
               | Some cq \<Rightarrow>
                   (case nextLinkBuilder p of
                      None \<Rightarrow> None
                    | Some builder \<Rightarrow> builder totalCount))))"


section \<open>The auth middleware\<close>

text \<open>
  \<open>CLIENT_ID\<close> and \<open>CLIENT_SECRET\<close> are the two environment variables, strings or
  absent.  The token store maps an access token to its data; the middleware's result is
  what it did with the request, the store it leaves and its calls of the store in order.
\<close>

record tokenData =
  clientId :: string
  expiresAt :: int

type_synonym tokenStore = "string \<rightharpoonup> tokenData"

datatype store_call = GetToken string | DeleteToken string

text \<open>\<open>next()\<close>, with \<open>req.clientId\<close> when the middleware set it, or a 401 with its message.\<close>

datatype auth_outcome = Next "string option" | Unauthorized string

definition middleware ::
  "string option \<Rightarrow> string option \<Rightarrow> int \<Rightarrow> tokenStore \<Rightarrow> string option
     \<Rightarrow> auth_outcome \<times> tokenStore \<times> store_call list" where
  "middleware CLIENT_ID CLIENT_SECRET now store authHeader =
     (if \<not> truthy CLIENT_ID \<or> \<not> truthy CLIENT_SECRET then (Next None, store, [])
      else if \<not> truthy authHeader
              \<or> \<not> prefix ''Bearer '' (case authHeader of Some h \<Rightarrow> h | None \<Rightarrow> [])
        then (Unauthorized
                ''Missing or invalid Authorization header. Use: Authorization: Bearer <token>'',
              store, [])
      else (let token = drop 7 (case authHeader of Some h \<Rightarrow> h | None \<Rightarrow> [])
            in case store token of
                 None \<Rightarrow> (Unauthorized ''Invalid or expired token'', store, [GetToken token])
               | Some tokenData \<Rightarrow>
                   if expiresAt tokenData < now
                   then (Unauthorized ''Token has expired'', store(token := None),
                         [GetToken token, DeleteToken token])
                   else (Next (Some (clientId tokenData)), store, [GetToken token])))"

text \<open>
  The routes of the router.  Those registered after \<open>router.use(auth.middleware)\<close> are
  reached only when the middleware calls \<open>next()\<close>.
\<close>

datatype route =
    ServiceDocument | Metadata | Token
  | PropertyList | PropertyGet | MemberList | MemberGet | OfficeList | OfficeGet

definition behind_middleware :: "route \<Rightarrow> bool" where
  "behind_middleware r \<longleftrightarrow> r \<notin> {ServiceDocument, Metadata, Token}"

definition reaches_handler ::
  "string option \<Rightarrow> string option \<Rightarrow> int \<Rightarrow> tokenStore \<Rightarrow> string option \<Rightarrow> route \<Rightarrow> bool" where
  "reaches_handler CLIENT_ID CLIENT_SECRET now store authHeader r =
     (if behind_middleware r
      then (case fst (middleware CLIENT_ID CLIENT_SECRET now store authHeader) of
              Next _ \<Rightarrow> True
            | Unauthorized _ \<Rightarrow> False)
      else True)"

section \<open>Properties of the query builder\<close>

lemma buildQuery_Inr:
  assumes "buildQuery pf opts = Inr plan"
  shows "\<exists>selectFields cp orderBy.
           parseSelect (q_select (query opts)) (fieldMap opts) = Inr selectFields \<and>
           where_conditions pf opts = Inr cp \<and>
           parseOrderBy (q_orderby (query opts)) (fieldMap opts) = Inr orderBy \<and>
           plan = \<lparr> dataQuery = data_sql selectFields (table opts) (where_clause (fst cp))
                      (order_by_clause (fieldMap opts) orderBy)
                      (max (or_number (parseInt (q_skip (query opts))) 0) 0)
                      (min (max (or_number (parseInt (q_top (query opts))) 100) 1) 1000),
                    countQuery = (if q_count (query opts) = Some ''true''
                                  then Some (count_sql (table opts) (where_clause (fst cp)))
                                  else None),
                    params = snd cp,
                    top = min (max (or_number (parseInt (q_top (query opts))) 100) 1) 1000,
                    skip = max (or_number (parseInt (q_skip (query opts))) 0) 0,
                    nextLinkBuilder =
                      (if truthy (baseUrl opts)
                       then Some (nextLink (case baseUrl opts of Some b \<Rightarrow> b | None \<Rightarrow> [])
                              (query opts)
                              (max (or_number (parseInt (q_skip (query opts))) 0) 0)
                              (min (max (or_number (parseInt (q_top (query opts))) 100) 1) 1000))
                       else None) \<rparr>"
proof -
  obtain selectFields where s: "parseSelect (q_select (query opts)) (fieldMap opts) = Inr selectFields"
    using assms unfolding buildQuery_def Let_def
    by (cases "parseSelect (q_select (query opts)) (fieldMap opts)") simp_all
  obtain cp where c: "where_conditions pf opts = Inr cp"
    using assms s unfolding buildQuery_def Let_def by (cases "where_conditions pf opts") simp_all
  obtain orderBy where ob: "parseOrderBy (q_orderby (query opts)) (fieldMap opts) = Inr orderBy"
    using assms s c unfolding buildQuery_def Let_def
    by (cases "parseOrderBy (q_orderby (query opts)) (fieldMap opts)") simp_all
  show ?thesis
    using assms s c ob unfolding buildQuery_def Let_def by simp
qed

lemma buildQuery_total:
  assumes "parseSelect (q_select (query opts)) (fieldMap opts) = Inr selectFields"
      and "where_conditions pf opts = Inr cp"
      and "parseOrderBy (q_orderby (query opts)) (fieldMap opts) = Inr orderBy"
  shows "\<exists>plan. buildQuery pf opts = Inr plan"
  using assms unfolding buildQuery_def Let_def by simp


lemma sublist_count_sql_where: "sublist w (count_sql t w)"
  unfolding count_sql_def sublist_def by (metis append.assoc)

text \<open>A request with no query option at all.\<close>

definition no_options :: query where
  "no_options = \<lparr> q_top = None, q_skip = None, q_count = None, q_select = None,
                   q_filter = None, q_orderby = None, q_expand = None \<rparr>"

lemma parseInt_5000: "parseInt (Some ''5000'') = Some 5000"
  by (simp add: parseInt_def parseInt_string_def parseInt_unsigned_def parseInt_digits_def
      is_space_def is_radix_digit_def digit_value_def digits_value_def)

lemma parseInt_minus_3: "parseInt (Some ''-3'') = Some (- 3)"
  by (simp add: parseInt_def parseInt_string_def parseInt_unsigned_def parseInt_digits_def
      is_space_def is_radix_digit_def digit_value_def digits_value_def)

lemma parseInt_0: "parseInt (Some ''0'') = Some 0"
  by (simp add: parseInt_def parseInt_string_def parseInt_unsigned_def parseInt_digits_def
      is_space_def is_radix_digit_def digit_value_def digits_value_def)

lemma parseInt_abc: "parseInt (Some ''abc'') = None"
  by (simp add: parseInt_def parseInt_string_def parseInt_unsigned_def parseInt_digits_def
      is_space_def is_radix_digit_def digit_value_def digits_value_def)

lemma buildQuery_plain:
  assumes "q_select q = None" "q_filter q = None" "q_orderby q = None"
  shows "\<exists>plan. buildQuery pf \<lparr> table = t, fieldMap = fm, query = q, keyField = kf,
                     keyValue = None, baseUrl = b, baseWhere = None \<rparr> = Inr plan"
  by (rule buildQuery_total [where selectFields = "all_columns fm" and cp = "([], [])" and orderBy = "[]"])
     (simp_all add: assms parseSelect_def where_conditions_def base_conditions_def
        filter_conditions_def truthy_def parseOrderBy_def)

text \<open>
  C4.  For every raw option map, the plan that \<open>buildQuery\<close> returns has
  \<open>top = clamp(parseInt($top) || 100, 1, 1000)\<close> and \<open>skip = max(parseInt($skip) || 0, 0)\<close>
  (\<open>||\<close> takes the default when \<open>parseInt\<close> gives \<open>NaN\<close> or 0), so \<open>top\<close> is in
  [1, 1000] and \<open>skip\<close> is at least 0.
\<close>

theorem pagination_bounds:
  assumes "buildQuery pf opts = Inr plan"
  shows "top plan = min (max (case parseInt (q_top (query opts)) of
                                None \<Rightarrow> 100 | Some n \<Rightarrow> if n = 0 then 100 else n) 1) 1000
       \<and> skip plan = max (case parseInt (q_skip (query opts)) of
                            None \<Rightarrow> 0 | Some n \<Rightarrow> if n = 0 then 0 else n) 0
       \<and> 1 \<le> top plan \<and> top plan \<le> 1000 \<and> 0 \<le> skip plan"
proof -
  from buildQuery_Inr [OF assms] have
    t: "top plan = min (max (or_number (parseInt (q_top (query opts))) 100) 1) 1000" and
    s: "skip plan = max (or_number (parseInt (q_skip (query opts))) 0) 0"
    by auto
  show ?thesis
    unfolding t s or_number_def by (simp split: option.split)
qed

text \<open>
  The theorem at \<open>$top=5000&$skip=-3\<close> on the Member field map: the plan exists and has
  \<open>top = 1000\<close>, \<open>skip = 0\<close>.
\<close>

theorem pagination_bounds_witness:
  "\<exists>plan. buildQuery (\<lambda>s. s)
             \<lparr> table = member_TABLE, fieldMap = member_fieldMap,
               query = no_options \<lparr> q_top := Some ''5000'', q_skip := Some ''-3'' \<rparr>,
               keyField = member_KEY_FIELD, keyValue = None, baseUrl = None,
               baseWhere = None \<rparr> = Inr (plan :: string plan)
         \<and> top plan = 1000 \<and> skip plan = 0"
proof -
  let ?opts = "\<lparr> table = member_TABLE, fieldMap = member_fieldMap,
               query = no_options \<lparr> q_top := Some ''5000'', q_skip := Some ''-3'' \<rparr>,
               keyField = member_KEY_FIELD, keyValue = None, baseUrl = None,
               baseWhere = None \<rparr> :: string options"
  obtain plan where p: "buildQuery (\<lambda>s. s) ?opts = Inr plan"
    using buildQuery_plain [of "no_options \<lparr> q_top := Some ''5000'', q_skip := Some ''-3'' \<rparr>"
        "\<lambda>s::string. s" member_TABLE member_fieldMap member_KEY_FIELD None]
    by (auto simp: no_options_def)
  from pagination_bounds [OF p] have "top plan = 1000 \<and> skip plan = 0"
    by (simp add: no_options_def parseInt_5000 parseInt_minus_3)
  with p show ?thesis by blast
qed

section \<open>Properties of the auth middleware\<close>

lemma middleware_configured_no_header:
  assumes "truthy CLIENT_ID" "truthy CLIENT_SECRET"
  shows "\<exists>msg. middleware CLIENT_ID CLIENT_SECRET now store None = (Unauthorized msg, store, [])"
  using assms by (simp add: middleware_def truthy_def)

text \<open>
  C10.  If \<open>OAUTH_CLIENT_ID\<close> or \<open>OAUTH_CLIENT_SECRET\<close> is not configured (absent or
  empty), the middleware calls \<open>next()\<close> whatever the Authorization header is, without a
  401 and without a call of the token store, and every route behind it is reached.
\<close>

theorem middleware_unconfigured:
  assumes "\<not> truthy CLIENT_ID \<or> \<not> truthy CLIENT_SECRET"
  shows "middleware CLIENT_ID CLIENT_SECRET now store authHeader = (Next None, store, [])
       \<and> reaches_handler CLIENT_ID CLIENT_SECRET now store authHeader r"
  using assms by (auto simp: middleware_def reaches_handler_def)

text \<open>
  The theorem with no client id, a request for the Property collection and a header that
  is not a bearer token.
\<close>

theorem middleware_unconfigured_witness:
  "\<not> truthy None
   \<and> middleware None (Some ''test-secret'') 0 Map.empty (Some ''Basic abc'')
       = (Next None, Map.empty, [])
   \<and> reaches_handler None (Some ''test-secret'') 0 Map.empty (Some ''Basic abc'') PropertyList"
  using middleware_unconfigured [of None "Some ''test-secret''" 0 Map.empty "Some ''Basic abc''" PropertyList]
  by (simp add: truthy_def)

section \<open>Properties of the entity handlers\<close>

lemma buildQuery_key:
  assumes "q_select q = None" "q_orderby q = None" "key_truthy k"
  shows "\<exists>plan. buildQuery pf \<lparr> table = t, fieldMap = fm, query = q, keyField = kf,
                     keyValue = Some k, baseUrl = b, baseWhere = None \<rparr> = Inr plan
               \<and> params plan = [(''keyValue'', key_pval k)]"
proof -
  let ?opts = "\<lparr> table = t, fieldMap = fm, query = q, keyField = kf,
                 keyValue = Some k, baseUrl = b, baseWhere = None \<rparr>"
  have w: "where_conditions pf ?opts
             = Inr ([column_of fm kf @ '' = @keyValue''], [(''keyValue'', key_pval k)])"
    using assms(3) by (simp add: where_conditions_def base_conditions_def)
  have s: "parseSelect (q_select (query ?opts)) (fieldMap ?opts) = Inr (all_columns fm)"
    using assms(1) by (simp add: parseSelect_def)
  have ob: "parseOrderBy (q_orderby (query ?opts)) (fieldMap ?opts) = Inr []"
    using assms(2) by (simp add: parseOrderBy_def)
  from buildQuery_total [OF s w ob] obtain plan where p: "buildQuery pf ?opts = Inr plan" ..
  from buildQuery_Inr [OF p] w have "params plan = [(''keyValue'', key_pval k)]" by auto
  with p show ?thesis by blast
qed

lemma issued_member_get:
  assumes "buildQuery pf \<lparr> table = member_TABLE, fieldMap = member_fieldMap,
             query = req_query req, keyField = member_KEY_FIELD,
             keyValue = Some (parse_key (strip_quotes (req_key req))),
             baseUrl = None, baseWhere = None \<rparr> = Inr p"
  shows "fst (member_get pf db req) = [(dataQuery p, params p)]"
  using assms by (simp add: member_get_def Let_def split: sum.split list.split)

lemma issued_office_get:
  assumes "buildQuery pf \<lparr> table = office_TABLE, fieldMap = office_fieldMap,
             query = req_query req, keyField = office_KEY_FIELD,
             keyValue = Some (parse_key (strip_quotes (req_key req))),
             baseUrl = None, baseWhere = None \<rparr> = Inr p"
  shows "fst (office_get pf db req) = [(dataQuery p, params p)]"
  using assms by (simp add: office_get_def Let_def split: sum.split list.split)


lemma parse_key_0: "parse_key (strip_quotes ''0'') = KStr ''0''"
  by (simp add: strip_quotes_def quote_def parse_key_def parseInt_string_def parseInt_unsigned_def
      parseInt_digits_def is_space_def is_radix_digit_def digit_value_def digits_value_def)

lemma parse_key_123: "parse_key (strip_quotes ''123'') = KInt 123"
  by (simp add: strip_quotes_def quote_def parse_key_def parseInt_string_def parseInt_unsigned_def
      parseInt_digits_def is_space_def is_radix_digit_def digit_value_def digits_value_def)

text \<open>
  A parsed key is a number exactly when \<open>parseInt\<close> gives a number other than 0; in every
  other case, \<open>NaN\<close> and 0 alike, it is the string itself.
\<close>

lemma parse_key_cases:
  "parse_key k = (if \<exists>n. parseInt_string k = Some n \<and> n \<noteq> 0
                  then KInt (the (parseInt_string k)) else KStr k)"
  by (auto simp: parse_key_def split: option.split)

text \<open>
  C9.  \<open>GET /odata/Member(0)\<close> and \<open>GET /odata/Office(0)\<close>: \<open>parseInt\<close> gives 0, not
  \<open>NaN\<close>, and yet the one query issued binds \<open>keyValue\<close> to the string \<open>0\<close>, not to the
  integer 0.
\<close>

theorem get_key_zero_is_string:
  "(\<exists>sql. fst (member_get pf db \<lparr> req_key = ''0'', req_query = no_options, req_protocol = ''http'',
                  req_host = ''localhost'', req_baseUrl = ''/odata'' \<rparr>)
            = [(sql, [(''keyValue'', PStr ''0'')])])
   \<and> (\<exists>sql. fst (office_get pf db \<lparr> req_key = ''0'', req_query = no_options, req_protocol = ''http'',
                  req_host = ''localhost'', req_baseUrl = ''/odata'' \<rparr>)
            = [(sql, [(''keyValue'', PStr ''0'')])])
   \<and> parseInt_string ''0'' = Some 0"
proof -
  let ?req = "\<lparr> req_key = ''0'', req_query = no_options, req_protocol = ''http'',
                req_host = ''localhost'', req_baseUrl = ''/odata'' \<rparr>"
  have kt: "key_truthy (KStr ''0'')" by (simp add: key_truthy_def)
  have q: "q_select no_options = None" "q_orderby no_options = None"
    by (simp_all add: no_options_def)
  from buildQuery_key [OF q kt, of pf member_TABLE member_fieldMap member_KEY_FIELD None]
  obtain p where p: "buildQuery pf \<lparr> table = member_TABLE, fieldMap = member_fieldMap,
             query = no_options, keyField = member_KEY_FIELD, keyValue = Some (KStr ''0''),
             baseUrl = None, baseWhere = None \<rparr> = Inr p"
      and pp: "params p = [(''keyValue'', PStr ''0'')]"
    by (auto simp: key_pval_def)
  have m: "fst (member_get pf db ?req) = [(dataQuery p, params p)]"
    by (rule issued_member_get) (simp add: parse_key_0 p)
  from buildQuery_key [OF q kt, of pf office_TABLE office_fieldMap office_KEY_FIELD None]
  obtain p' where p': "buildQuery pf \<lparr> table = office_TABLE, fieldMap = office_fieldMap,
             query = no_options, keyField = office_KEY_FIELD, keyValue = Some (KStr ''0''),
             baseUrl = None, baseWhere = None \<rparr> = Inr p'"
      and pp': "params p' = [(''keyValue'', PStr ''0'')]"
    by (auto simp: key_pval_def)
  have o: "fst (office_get pf db ?req) = [(dataQuery p', params p')]"
    by (rule issued_office_get) (simp add: parse_key_0 p')
  have z: "parseInt_string ''0'' = Some 0"
    using parseInt_0 by (simp add: parseInt_def)
  from m pp o pp' z show ?thesis by auto
qed

lemma join_single: "join sep [x] = x"
  by simp



text \<open>A database gateway that has no row for any query.\<close>

definition no_rows :: "(string, string) db" where
  "no_rows sql ps = Inr []"








section \<open>Properties of the lexer\<close>

text \<open>
  The body of a string literal (the input after its opening quote) is unclosed when the
  input ends before a quote that is not doubled.  Its value is the body with every
  doubled quote read as one quote.
\<close>

fun unclosed :: "string \<Rightarrow> bool" where
  "unclosed [] = True"
| "unclosed [c] = (c \<noteq> quote)"
| "unclosed (c # d # ds) =
     (if c = quote then d = quote \<and> unclosed ds else unclosed (d # ds))"

fun unescape :: "string \<Rightarrow> string" where
  "unescape [] = []"
| "unescape [c] = [c]"
| "unescape (c # d # ds) =
     (if c = quote \<and> d = quote then quote # unescape ds else c # unescape (d # ds))"

lemma quote_classes [simp]:
  "\<not> is_space quote" "\<not> is_digit quote" "\<not> is_num_start quote" "\<not> is_datetime_char quote"
  "\<not> is_number_char quote" "\<not> is_word_start quote" "\<not> is_word_char quote"
  "quote \<noteq> CHR ''-''" "quote \<noteq> CHR ''(''" "quote \<noteq> CHR '')''" "quote \<noteq> CHR '',''"
  by (simp_all add: quote_def is_space_def is_digit_def is_num_start_def is_datetime_char_def
      is_number_char_def is_word_start_def is_word_char_def)

lemma string_literal_unclosed:
  "unclosed body \<Longrightarrow> string_literal body v = (v @ unescape body, [])"
proof (induction body arbitrary: v rule: unclosed.induct)
  case 1
  show ?case by simp
next
  case (2 c)
  then show ?case by simp
next
  case (3 c d ds)
  show ?case
  proof (cases "c = quote")
    case True
    with "3.prems" have d: "d = quote" and u: "unclosed ds" by simp_all
    from "3.IH"(1) [OF True u] show ?thesis using True d by simp
  next
    case False
    with "3.prems" have u: "unclosed (d # ds)" by simp
    from "3.IH"(2) [OF False u] show ?thesis using False by simp
  qed
qed

declare tokenizeFilter.simps [simp]

lemma tokenize_unclosed:
  assumes "unclosed body"
  shows "tokenizeFilter pf (quote # body) = Inr [String (unescape body)]"
  using string_literal_unclosed [OF assms, of "[]"] by (simp add: push_def)

lemma matches_prefix_before_quote:
  assumes "\<forall>p \<in> set ps. \<not> p quote" "quote \<notin> set pre"
  shows "matches_prefix ps (pre @ quote # rest) = matches_prefix ps pre"
  using assms
proof (induction ps pre rule: matches_prefix.induct)
  case (1 s)
  show ?case by simp
next
  case (2 p ps)
  then show ?case by simp
next
  case (3 p ps c cs)
  from "3.prems" have a: "\<forall>p \<in> set ps. \<not> p quote" and b: "quote \<notin> set cs"
    by auto
  from "3.IH" [OF a b] show ?case by simp
qed

lemma isDatetime_before_quote:
  assumes "quote \<notin> set pre"
  shows "isDatetime (pre @ quote # rest) = isDatetime pre"
  unfolding isDatetime_def
  by (rule matches_prefix_before_quote) (simp_all add: assms is_hyphen_def)

lemma push_append:
  "push t (case r of Inl e \<Rightarrow> Inl e
           | Inr ts \<Rightarrow> (case r' of Inl e \<Rightarrow> Inl e | Inr ts' \<Rightarrow> Inr (ts @ ts')))
   = (case push t r of Inl e \<Rightarrow> Inl e
      | Inr ts \<Rightarrow> (case r' of Inl e \<Rightarrow> Inl e | Inr ts' \<Rightarrow> Inr (ts @ ts')))"
  by (simp add: push_def split: sum.split)

lemma tokenize_before_quote:
  assumes "quote \<notin> set pre"
  shows "tokenizeFilter pf (pre @ quote # rest) =
           (case tokenizeFilter pf pre of
              Inl e \<Rightarrow> Inl e
            | Inr ts \<Rightarrow>
                (case tokenizeFilter pf (quote # rest) of
                   Inl e \<Rightarrow> Inl e
                 | Inr ts' \<Rightarrow> Inr (ts @ ts')))"
  using assms
proof (induction pf pre rule: tokenizeFilter.induct)
  case (1 pf)
  show ?case by (simp split: sum.split)
next
  case (2 pf c cs)
  let ?q = "tokenizeFilter pf (quote # rest)"
  from "2.prems" have cq: "c \<noteq> quote" and nq: "quote \<notin> set cs" by auto
  have dq: "\<And>P. quote \<notin> set (dropWhile P (c # cs))"
    using "2.prems" by (meson set_dropWhileD)
  have tw: "\<And>P. \<not> P quote \<Longrightarrow> takeWhile P ((c # cs) @ quote # rest) = takeWhile P (c # cs)"
    by (rule takeWhile_tail)
  have dw: "\<And>P. \<not> P quote \<Longrightarrow>
              dropWhile P ((c # cs) @ quote # rest) = dropWhile P (c # cs) @ quote # rest"
    by (rule dropWhile_append3)
  have dt: "isDatetime ((c # cs) @ quote # rest) = isDatetime (c # cs)"
    by (rule isDatetime_before_quote [OF "2.prems"])
  consider (space) "is_space c"
    | (num_dt) "\<not> is_space c" "is_num_start c" "isDatetime (c # cs)"
    | (num) "\<not> is_space c" "is_num_start c" "\<not> isDatetime (c # cs)"
    | (paren) "\<not> is_space c" "\<not> is_num_start c" "c = CHR ''('' \<or> c = CHR '')''"
    | (comma) "\<not> is_space c" "\<not> is_num_start c" "\<not> (c = CHR ''('' \<or> c = CHR '')'')" "c = CHR '',''"
    | (word) "\<not> is_space c" "\<not> is_num_start c" "\<not> (c = CHR ''('' \<or> c = CHR '')'')" "c \<noteq> CHR '',''"
        "is_word_start c"
    | (other) "\<not> is_space c" "\<not> is_num_start c" "\<not> (c = CHR ''('' \<or> c = CHR '')'')" "c \<noteq> CHR '',''"
        "\<not> is_word_start c"
    by blast
  then show ?case
  proof cases
    case space
    from "2.IH"(1) [OF space nq] space show ?thesis by simp
  next
    case num_dt
    have ih: "tokenizeFilter pf (dropWhile is_datetime_char (c # cs) @ quote # rest) =
           (case tokenizeFilter pf (dropWhile is_datetime_char (c # cs)) of
              Inl e \<Rightarrow> Inl e
            | Inr ts \<Rightarrow> (case ?q of Inl e \<Rightarrow> Inl e | Inr ts' \<Rightarrow> Inr (ts @ ts')))"
      by (rule "2.IH"(3) [OF num_dt(1) cq num_dt(2) num_dt(3) dq])
    have "tokenizeFilter pf ((c # cs) @ quote # rest) =
            push (Datetime (takeWhile is_datetime_char (c # cs)))
              (tokenizeFilter pf (dropWhile is_datetime_char (c # cs) @ quote # rest))"
      using num_dt cq dt tw [of is_datetime_char] dw [of is_datetime_char]
      by (simp del: takeWhile.simps dropWhile.simps)
    also have "\<dots> = (case push (Datetime (takeWhile is_datetime_char (c # cs)))
                           (tokenizeFilter pf (dropWhile is_datetime_char (c # cs))) of
                      Inl e \<Rightarrow> Inl e
                    | Inr ts \<Rightarrow> (case ?q of Inl e \<Rightarrow> Inl e | Inr ts' \<Rightarrow> Inr (ts @ ts')))"
      unfolding ih by (rule push_append)
    also have "push (Datetime (takeWhile is_datetime_char (c # cs)))
                 (tokenizeFilter pf (dropWhile is_datetime_char (c # cs)))
               = tokenizeFilter pf (c # cs)"
      using num_dt cq by (simp del: takeWhile.simps dropWhile.simps)
    finally show ?thesis by simp
  next
    case num
    have ih: "tokenizeFilter pf (dropWhile is_number_char (c # cs) @ quote # rest) =
           (case tokenizeFilter pf (dropWhile is_number_char (c # cs)) of
              Inl e \<Rightarrow> Inl e
            | Inr ts \<Rightarrow> (case ?q of Inl e \<Rightarrow> Inl e | Inr ts' \<Rightarrow> Inr (ts @ ts')))"
      by (rule "2.IH"(4) [OF num(1) cq num(2) num(3) dq])
    have "tokenizeFilter pf ((c # cs) @ quote # rest) =
            push (Number (pf (takeWhile is_number_char (c # cs))))
              (tokenizeFilter pf (dropWhile is_number_char (c # cs) @ quote # rest))"
      using num cq dt tw [of is_number_char] dw [of is_number_char]
      by (simp del: takeWhile.simps dropWhile.simps)
    also have "\<dots> = (case push (Number (pf (takeWhile is_number_char (c # cs))))
                           (tokenizeFilter pf (dropWhile is_number_char (c # cs))) of
                      Inl e \<Rightarrow> Inl e
                    | Inr ts \<Rightarrow> (case ?q of Inl e \<Rightarrow> Inl e | Inr ts' \<Rightarrow> Inr (ts @ ts')))"
      unfolding ih by (rule push_append)
    also have "push (Number (pf (takeWhile is_number_char (c # cs))))
                 (tokenizeFilter pf (dropWhile is_number_char (c # cs)))
               = tokenizeFilter pf (c # cs)"
      using num cq by (simp del: takeWhile.simps dropWhile.simps)
    finally show ?thesis by simp
  next
    case paren
    from "2.IH"(5) [OF paren(1) cq paren(2) paren(3) nq] paren cq
    show ?thesis by (simp add: push_append)
  next
    case comma
    from "2.IH"(6) [OF comma(1) cq comma(2) comma(3) comma(4) nq] comma cq
    show ?thesis by (simp add: push_append)
  next
    case word
    have ih: "tokenizeFilter pf (dropWhile is_word_char (c # cs) @ quote # rest) =
           (case tokenizeFilter pf (dropWhile is_word_char (c # cs)) of
              Inl e \<Rightarrow> Inl e
            | Inr ts \<Rightarrow> (case ?q of Inl e \<Rightarrow> Inl e | Inr ts' \<Rightarrow> Inr (ts @ ts')))"
      by (rule "2.IH"(7) [OF word(1) cq word(2) word(3) word(4) word(5) dq])
    have "tokenizeFilter pf ((c # cs) @ quote # rest) =
            push (classify (takeWhile is_word_char (c # cs)))
              (tokenizeFilter pf (dropWhile is_word_char (c # cs) @ quote # rest))"
      using word cq tw [of is_word_char] dw [of is_word_char]
      by (simp del: takeWhile.simps dropWhile.simps)
    also have "\<dots> = (case push (classify (takeWhile is_word_char (c # cs)))
                           (tokenizeFilter pf (dropWhile is_word_char (c # cs))) of
                      Inl e \<Rightarrow> Inl e
                    | Inr ts \<Rightarrow> (case ?q of Inl e \<Rightarrow> Inl e | Inr ts' \<Rightarrow> Inr (ts @ ts')))"
      unfolding ih by (rule push_append)
    also have "push (classify (takeWhile is_word_char (c # cs)))
                 (tokenizeFilter pf (dropWhile is_word_char (c # cs)))
               = tokenizeFilter pf (c # cs)"
      using word cq by (simp del: takeWhile.simps dropWhile.simps)
    finally show ?thesis by simp
  next
    case other
    with cq show ?thesis by simp
  qed
qed

lemma tokenize_City_eq:
  "tokenizeFilter pf ''City eq '' = Inr [Identifier ''City'', Operator ''eq'']"
  by (simp add: is_space_def quote_def is_num_start_def is_digit_def is_word_start_def
      is_word_char_def classify_def toLowerCase_def lower_char_def upper_letters_def
      lower_letters_def push_def)

lemma unclosed_abc: "unclosed ''abc''"
  by (simp add: quote_def)

lemma unescape_abc: "unescape ''abc'' = ''abc''"
  by (simp add: quote_def)

text \<open>
  C8.  The \<open>$filter\<close> input \<open>City eq 'abc\<close> opens a string literal and ends before
  its closing quote.  The inner loop of the lexer runs to the end of the input, the
  statement that skips the closing quote skips nothing, and the lexer returns three
  tokens instead of failing.
\<close>

theorem unclosed_string_tokenized:
  "unclosed ''abc''
   \<and> tokenizeFilter (id :: string \<Rightarrow> string) (''City eq '' @ quote # ''abc'')
       = Inr [Identifier ''City'', Operator ''eq'', String ''abc'']"
proof -
  have nq: "quote \<notin> set ''City eq ''" by (simp add: quote_def)
  have "tokenizeFilter (id :: string \<Rightarrow> string) (quote # ''abc'') = Inr [String ''abc'']"
    using tokenize_unclosed [OF unclosed_abc, of id] unfolding unescape_abc .
  then have "tokenizeFilter (id :: string \<Rightarrow> string) (''City eq '' @ quote # ''abc'')
               = Inr [Identifier ''City'', Operator ''eq'', String ''abc'']"
    unfolding tokenize_before_quote [OF nq] tokenize_City_eq by simp
  with unclosed_abc show ?thesis by blast
qed

declare tokenizeFilter.simps [simp del]

section \<open>Properties of the key codec\<close>

lemma digit_char_is_digit: "k < 10 \<Longrightarrow> is_digit (digit_char k)"
proof -
  assume "k < 10"
  then consider "k = 0" | "k = 1" | "k = 2" | "k = 3" | "k = 4" | "k = 5" | "k = 6" | "k = 7"
    | "k = 8" | "k = 9" by (auto simp: less_Suc_eq numeral_eq_Suc)
  then show ?thesis by cases (simp_all add: digit_char_def is_digit_def)
qed

lemma digit_value_digit_char: "k < 10 \<Longrightarrow> digit_value (digit_char k) = Some k"
proof -
  assume "k < 10"
  then consider "k = 0" | "k = 1" | "k = 2" | "k = 3" | "k = 4" | "k = 5" | "k = 6" | "k = 7"
    | "k = 8" | "k = 9" by (auto simp: less_Suc_eq numeral_eq_Suc)
  then show ?thesis by cases (simp_all add: digit_char_def digit_value_def)
qed

lemma toString_nat_digits: "list_all is_digit (toString_nat n)"
proof (induction n rule: toString_nat.induct)
  case (1 n)
  show ?case
  proof (cases "n < 10")
    case True
    then show ?thesis by (simp add: toString_nat.simps digit_char_is_digit)
  next
    case False
    have "list_all is_digit (toString_nat (n div 10) @ [digit_char (n mod 10)])"
      using "1.IH" [OF False] by (simp add: digit_char_is_digit)
    with False show ?thesis by (subst toString_nat.simps) simp
  qed
qed

lemma digits_value_snoc:
  "digits_value R (z @ [c]) = digits_value R z * R + (case digit_value c of Some d \<Rightarrow> d | None \<Rightarrow> 0)"
  by (simp add: digits_value_def)

text \<open>The decimal rendering reads back as the number rendered.\<close>

lemma digits_value_toString_nat: "digits_value 10 (toString_nat n) = n"
proof (induction n rule: toString_nat.induct)
  case (1 n)
  show ?case
  proof (cases "n < 10")
    case True
    then show ?thesis by (simp add: toString_nat.simps digits_value_def digit_value_digit_char)
  next
    case False
    have "digits_value 10 (toString_nat (n div 10) @ [digit_char (n mod 10)]) = n"
      unfolding digits_value_snoc using "1.IH" [OF False]
      by (simp add: digit_value_digit_char)
    with False show ?thesis by (subst toString_nat.simps) simp
  qed
qed

lemma and_mask_63: "and (n :: nat) 0x7FFFFFFFFFFFFFFF = n mod 2 ^ 63"
proof -
  have m: "(0x7FFFFFFFFFFFFFFF :: nat) = mask 63" by (simp add: mask_eq_exp_minus_1)
  have "and n (mask 63) = n mod 2 ^ 63"
    by (simp only: take_bit_eq_mask [symmetric] take_bit_eq_mod)
  then show ?thesis by (simp only: m)
qed

lemma foldl_big_endian:
  "foldl (\<lambda>acc b. acc * 256 + f b) (a :: nat) xs
     = a * 256 ^ length xs + (\<Sum>i < length xs. f (xs ! i) * 256 ^ (length xs - 1 - i))"
proof (induction xs rule: rev_induct)
  case Nil
  show ?case by simp
next
  case (snoc x xs)
  let ?n = "length xs"
  let ?S = "\<Sum>i < ?n. f (xs ! i) * 256 ^ (?n - 1 - i)"
  have step: "\<And>i. i < ?n \<Longrightarrow>
      f ((xs @ [x]) ! i) * 256 ^ (?n - i) = f (xs ! i) * 256 ^ (?n - 1 - i) * 256"
  proof -
    fix i assume i: "i < ?n"
    then have "?n - i = Suc (?n - 1 - i)" by simp
    then have "(256::nat) ^ (?n - i) = 256 ^ (?n - 1 - i) * 256" by (simp only: power_Suc2)
    with i show "f ((xs @ [x]) ! i) * 256 ^ (?n - i) = f (xs ! i) * 256 ^ (?n - 1 - i) * 256"
      by (simp add: nth_append)
  qed
  have "(\<Sum>i < ?n. f ((xs @ [x]) ! i) * 256 ^ (?n - i))
          = (\<Sum>i < ?n. f (xs ! i) * 256 ^ (?n - 1 - i) * 256)"
    by (rule sum.cong) (simp_all only: step lessThan_iff)
  also have "\<dots> = ?S * 256" by (simp only: sum_distrib_right)
  finally have shift: "(\<Sum>i < ?n. f ((xs @ [x]) ! i) * 256 ^ (?n - i)) = ?S * 256" .
  have "foldl (\<lambda>acc b. acc * 256 + f b) a (xs @ [x])
          = (a * 256 ^ ?n + ?S) * 256 + f x"
    using snoc.IH by simp
  also have "\<dots> = a * 256 ^ Suc ?n + (?S * 256 + f x)"
    by (simp add: algebra_simps)
  also have "?S * 256 + f x
          = (\<Sum>i < Suc ?n. f ((xs @ [x]) ! i) * 256 ^ (Suc ?n - 1 - i))"
    using shift by simp
  finally show ?case by simp
qed

lemma readBigUInt64BE_value:
  assumes "8 \<le> length buf"
  shows "readBigUInt64BE buf = Inr (\<Sum>i < 8. unat (buf ! i) * 256 ^ (7 - i))"
proof -
  have l: "length (take 8 buf) = 8" using assms by simp
  have "foldl (\<lambda>acc b. acc * 256 + unat b) 0 (take 8 buf)
          = (\<Sum>i < 8. unat (take 8 buf ! i) * 256 ^ (8 - 1 - i))"
    unfolding foldl_big_endian l by simp
  also have "\<dots> = (\<Sum>i < 8. unat (buf ! i) * 256 ^ (7 - i))"
    by (rule sum.cong) simp_all
  finally show ?thesis using assms by (simp add: readBigUInt64BE_def)
qed

text \<open>
  C3.  For a non-empty key, and a hash function that returns the 32 bytes of a SHA-256
  digest, \<open>encodeListingKey\<close> is the decimal rendering of the first 8 bytes of the digest
  of the key's UTF-8 bytes, read as a big-endian unsigned integer and reduced to its low
  63 bits: the result consists of decimal digits only, reads back as that number, and the
  number is below \<open>2 ^ 63\<close>.  (Equal keys give equal results, as for every function.)
\<close>

theorem encodeListingKey_spec:
  assumes "str \<noteq> []" and "length (sha256 (utf8 str)) = 32"
  shows "encodeListingKey sha256 str
           = Inr (Some (toString_nat
               ((\<Sum>i < 8. unat (sha256 (utf8 str) ! i) * 256 ^ (7 - i)) mod 2 ^ 63)))
       \<and> list_all is_digit
           (toString_nat ((\<Sum>i < 8. unat (sha256 (utf8 str) ! i) * 256 ^ (7 - i)) mod 2 ^ 63))
       \<and> digits_value 10
           (toString_nat ((\<Sum>i < 8. unat (sha256 (utf8 str) ! i) * 256 ^ (7 - i)) mod 2 ^ 63))
           = (\<Sum>i < 8. unat (sha256 (utf8 str) ! i) * 256 ^ (7 - i)) mod 2 ^ 63
       \<and> (\<Sum>i < 8. unat (sha256 (utf8 str) ! i) * 256 ^ (7 - i)) mod 2 ^ 63 < (2 :: nat) ^ 63"
proof -
  have "8 \<le> length (sha256 (utf8 str))" using assms(2) by simp
  from readBigUInt64BE_value [OF this] assms(1)
  have "encodeListingKey sha256 str
           = Inr (Some (toString_nat
               ((\<Sum>i < 8. unat (sha256 (utf8 str) ! i) * 256 ^ (7 - i)) mod 2 ^ 63)))"
    by (simp add: encodeListingKey_def and_mask_63)
  moreover have "(\<Sum>i < 8. unat (sha256 (utf8 str) ! i) * 256 ^ (7 - i)) mod 2 ^ 63 < (2 :: nat) ^ 63"
    by (rule mod_less_divisor) simp
  ultimately show ?thesis
    using toString_nat_digits digits_value_toString_nat by blast
qed

text \<open>
  A stand-in for the hash function, to evaluate the codec: the input bytes, filled up with
  \<open>0xFF\<close> or cut to 32 bytes.
\<close>

definition padding_digest :: "8 word list \<Rightarrow> 8 word list" where
  "padding_digest bs = take 32 (bs @ replicate 32 0xFF)"

lemma replicate_32:
  "replicate 32 x =
     [x, x, x, x, x, x, x, x, x, x, x, x, x, x, x, x, x, x, x, x, x, x, x, x, x, x, x, x, x, x, x, x]"
  by (simp add: numeral_eq_Suc)

lemma length_padding_digest: "length (padding_digest bs) = 32"
  by (simp add: padding_digest_def)

lemma utf8_witness: "utf8 [CHR 0xE9, CHR ''1''] = [0xC3, 0xA9, 0x31]"
  by (simp add: utf8_def utf8_char_def)

lemma encode_witness_value:
  "encodeListingKey padding_digest [CHR 0xE9, CHR ''1''] = Inr (Some ''4875483047186661375'')"
  by (simp add: encodeListingKey_def utf8_witness padding_digest_def replicate_32
      readBigUInt64BE_def toString_nat.simps digit_char_def)

text \<open>
  The theorem at the key \<open>U+00E9 1\<close> with the stand-in: the UTF-8 bytes are
  \<open>C3 A9 31\<close>, the first 8 bytes of the digest are \<open>C3 A9 31 FF FF FF FF FF\<close>, and the
  result is the decimal rendering of \<open>0x43A931FFFFFFFFFF\<close>.
\<close>

theorem encodeListingKey_spec_witness:
  "[CHR 0xE9, CHR ''1''] \<noteq> [] \<and> length (padding_digest (utf8 [CHR 0xE9, CHR ''1''])) = 32
   \<and> encodeListingKey padding_digest [CHR 0xE9, CHR ''1''] = Inr (Some ''4875483047186661375'')
   \<and> list_all is_digit ''4875483047186661375''
   \<and> digits_value 10 ''4875483047186661375'' = 0x43A931FFFFFFFFFF
   \<and> (0x43A931FFFFFFFFFF :: nat) < 2 ^ 63"
proof -
  have ne: "[CHR 0xE9, CHR ''1''] \<noteq> []" by simp
  have len: "length (padding_digest (utf8 [CHR 0xE9, CHR ''1''])) = 32"
    by (rule length_padding_digest)
  note spec = encodeListingKey_spec [of "[CHR 0xE9, CHR ''1'']" padding_digest, OF ne len]
  have v: "toString_nat ((\<Sum>i < 8. unat (padding_digest (utf8 [CHR 0xE9, CHR ''1'']) ! i)
              * 256 ^ (7 - i)) mod 2 ^ 63) = ''4875483047186661375''"
    using spec encode_witness_value by simp
  have n: "(\<Sum>i < 8. unat (padding_digest (utf8 [CHR 0xE9, CHR ''1'']) ! i) * 256 ^ (7 - i))
              mod 2 ^ 63 = 0x43A931FFFFFFFFFF"
    using spec unfolding v
    by (simp add: digits_value_def digit_value_def)
  from spec [unfolded v, unfolded n] ne len show ?thesis by blast
qed

section \<open>The count query\<close>

lemma tokenize_ListPrice_gt:
  "tokenizeFilter pf ''ListPrice gt 500000''
     = Inr [Identifier ''ListPrice'', Operator ''gt'', Number (pf ''500000'')]"
  by (simp add: tokenizeFilter.simps is_space_def quote_def is_num_start_def is_digit_def
      is_word_start_def is_word_char_def is_number_char_def isDatetime_def is_hyphen_def
      classify_def toLowerCase_def lower_char_def upper_letters_def lower_letters_def push_def)

lemma getNextParamName_0: "getNextParamName 0 = ''filter0''"
  by (simp add: getNextParamName_def toString_nat.simps digit_char_def)

lemma col_ListPrice: "map_of property_fieldMap ''ListPrice'' = Some ''IDCLISTPRICE''"
  by (simp add: property_fieldMap_def)

lemma op_gt: "opMap_lookup ''gt'' = ''>''"
  by (simp add: opMap_lookup_def opMap_def)

lemma parseFilterTokens_ListPrice_gt:
  "parseFilterTokens [Identifier ''ListPrice'', Operator ''gt'', Number n] property_fieldMap
     = Inr (''IDCLISTPRICE > @filter0'', [(''filter0'', PNum n)])"
  by (simp add: parseFilterTokens_def loop_body_def bind_literal_def col_ListPrice op_gt
      getNextParamName_0)

lemma parseFilter_ListPrice_gt:
  "parseFilter pf (Some ''ListPrice gt 500000'') property_fieldMap
     = Inr (''IDCLISTPRICE > @filter0'', [(''filter0'', PNum (pf ''500000''))])"
  by (simp add: parseFilter_def tokenize_ListPrice_gt parseFilterTokens_ListPrice_gt)

text \<open>A collection request for Property with \<open>$count=true\<close> and a filter on the price.\<close>

definition counted_request :: query where
  "counted_request = no_options \<lparr> q_count := Some ''true'', q_filter := Some ''ListPrice gt 500000'' \<rparr>"

definition counted_options :: "string options" where
  "counted_options =
     \<lparr> table = property_TABLE, fieldMap = property_fieldMap, query = counted_request,
       keyField = property_KEY_FIELD, keyValue = None,
       baseUrl = Some ''http://localhost/odata/Property'', baseWhere = None \<rparr>"

lemma where_conditions_counted:
  "where_conditions id counted_options
     = Inr ([''IDCLISTPRICE > @filter0''], [(''filter0'', PNum ''500000'')])"
proof -
  have q: "q_filter (query counted_options) = Some ''ListPrice gt 500000''"
          "fieldMap counted_options = property_fieldMap"
          "keyValue counted_options = None" "baseWhere counted_options = None"
    by (simp_all add: counted_options_def counted_request_def)
  show ?thesis
    unfolding where_conditions_def filter_conditions_def q parseFilter_ListPrice_gt
    by (simp add: base_conditions_def truthy_def Object_assign_def)
qed

lemma buildQuery_counted: "\<exists>plan. buildQuery id counted_options = Inr plan"
  by (rule buildQuery_total [where selectFields = "all_columns property_fieldMap" and orderBy = "[]",
        OF _ where_conditions_counted])
     (simp_all add: counted_options_def counted_request_def no_options_def parseSelect_def
        parseOrderBy_def)

lemma issued_execute_queries:
  "fst (execute_queries db p)
     = (dataQuery p, params p) # (case countQuery p of None \<Rightarrow> [] | Some cq \<Rightarrow> [(cq, params p)])"
  by (simp add: execute_queries_def split: option.split)

lemma order_by_clause_text: "\<exists>x. order_by_clause fm ob = ''ORDER BY '' @ x"
  by (simp add: order_by_clause_def)

lemma where_clause_text:
  "where_clause conds = (if conds = [] then [] else ''WHERE '' @ join '' AND '' conds)"
  by (simp add: where_clause_def)

lemma data_sql_where_line:
  "sublist (newline # ''    '' @ w @ newline # ''    ORDER BY '')
     (data_sql s t w (order_by_clause fm ob) sk tp)"
proof -
  obtain x where x: "order_by_clause fm ob = ''ORDER BY '' @ x"
    using order_by_clause_text by blast
  have "data_sql s t w (''ORDER BY '' @ x) sk tp
          = (nl @ ''SELECT '' @ s @ nl @ ''FROM '' @ t)
            @ (newline # ''    '' @ w @ newline # ''    ORDER BY '')
            @ (x @ nl @ ''OFFSET '' @ toString_int sk @ '' ROWS'' @ nl @ ''FETCH NEXT ''
               @ toString_int tp @ '' ROWS ONLY'' @ newline # ''  '')"
    by (simp add: data_sql_def nl_def)
  then show ?thesis unfolding x sublist_def by blast
qed

lemma count_sql_text:
  "count_sql t w = newline # ''    SELECT COUNT(*) as total'' @ newline # ''    FROM '' @ t
                   @ newline # ''    '' @ w @ newline # ''  ''"
  by (simp add: count_sql_def nl_def)

lemma issued_member_list:
  "buildQuery pf (member_list_options req) = Inr p
     \<Longrightarrow> fst (member_list pf db req) = fst (execute_queries db p)"
  by (simp add: member_list_def Let_def split: prod.split sum.split option.split)

lemma issued_office_list:
  "buildQuery pf (office_list_options req) = Inr p
     \<Longrightarrow> fst (office_list pf db req) = fst (execute_queries db p)"
  by (simp add: office_list_def Let_def split: prod.split sum.split option.split)

lemma issued_property_list:
  "buildQuery pf (property_list_options req) = Inr p
     \<Longrightarrow> (\<exists>e. property_list pf db req = ([], ListFailed e))
         \<or> fst (property_list pf db req) = fst (execute_queries db p)"
  by (cases "parseExpand (q_expand (req_query req)) ALLOWED_EXPANSIONS")
     (simp_all add: property_list_def split: prod.split sum.split)

text \<open>The request \<open>GET /odata/Property?$count=true&$filter=ListPrice gt 500000\<close>.\<close>

definition counted_http_request :: request where
  "counted_http_request =
     \<lparr> req_key = [], req_query = counted_request, req_protocol = ''http'',
       req_host = ''localhost'', req_baseUrl = ''/odata'' \<rparr>"

lemma counted_options_of_request: "counted_options = property_list_options counted_http_request"
  by (simp add: counted_options_def property_list_options_def counted_http_request_def
      request_baseUrl_def)

lemma property_list_not_failed:
  assumes "parseExpand (q_expand (req_query req)) ALLOWED_EXPANSIONS = Inr ex"
      and "buildQuery pf (property_list_options req) = Inr p"
  shows "property_list pf db req \<noteq> ([], ListFailed e)"
proof -
  have "fst (property_list pf db req) = fst (execute_queries db p)"
    using assms by (simp add: property_list_def split: prod.split sum.split)
  then show ?thesis by (auto simp: issued_execute_queries)
qed

text \<open>
  C6.  In a plan that \<open>buildQuery\<close> returns, the \<open>WHERE\<close> clause is the conjunction of
  the conditions whose parameters are the plan's \<open>params\<close> (no clause for no condition).
  That one text stands on a line of its own before \<open>ORDER BY\<close> in the data SQL and, when
  \<open>$count\<close> is the string \<open>true\<close>, after \<open>FROM <table>\<close> in the count SQL, which is
  \<open>SELECT COUNT(*) as total FROM <table> <WHERE?>\<close>; otherwise there is no count SQL.
  The list handlers of Member, Office and Property issue the data SQL, and the count SQL
  when there is one, each with the plan's \<open>params\<close> (the Property handler unless
  \<open>$expand\<close> is invalid).
\<close>

theorem count_query_same_where:
  assumes "buildQuery pf opts = Inr plan"
  shows "\<exists>conds w.
           where_conditions pf opts = Inr (conds, params plan)
         \<and> w = (if conds = [] then [] else ''WHERE '' @ join '' AND '' conds)
         \<and> sublist (newline # ''    '' @ w @ newline # ''    ORDER BY '') (dataQuery plan)
         \<and> countQuery plan
             = (if q_count (query opts) = Some ''true''
                then Some (newline # ''    SELECT COUNT(*) as total'' @ newline # ''    FROM ''
                           @ table opts @ newline # ''    '' @ w @ newline # ''  '')
                else None)
         \<and> (opts = member_list_options req \<longrightarrow>
               fst (member_list pf db req)
                 = (dataQuery plan, params plan)
                   # (case countQuery plan of None \<Rightarrow> [] | Some cq \<Rightarrow> [(cq, params plan)]))
         \<and> (opts = office_list_options req \<longrightarrow>
               fst (office_list pf db req)
                 = (dataQuery plan, params plan)
                   # (case countQuery plan of None \<Rightarrow> [] | Some cq \<Rightarrow> [(cq, params plan)]))
         \<and> (opts = property_list_options req \<longrightarrow>
               (\<exists>e. property_list pf db req = ([], ListFailed e))
               \<or> fst (property_list pf db req)
                 = (dataQuery plan, params plan)
                   # (case countQuery plan of None \<Rightarrow> [] | Some cq \<Rightarrow> [(cq, params plan)]))"
proof -
  from buildQuery_Inr [OF assms] obtain selectFields cp orderBy where
    w: "where_conditions pf opts = Inr cp" and
    ps: "params plan = snd cp" and
    d: "dataQuery plan = data_sql selectFields (table opts) (where_clause (fst cp))
          (order_by_clause (fieldMap opts) orderBy) (skip plan) (top plan)" and
    c: "countQuery plan = (if q_count (query opts) = Some ''true''
          then Some (count_sql (table opts) (where_clause (fst cp))) else None)"
    by auto
  define wt where "wt = (if fst cp = [] then [] else ''WHERE '' @ join '' AND '' (fst cp))"
  have wc: "where_clause (fst cp) = wt" by (simp add: where_clause_text wt_def)
  have 1: "where_conditions pf opts = Inr (fst cp, params plan)" using w ps by simp
  have 2: "sublist (newline # ''    '' @ wt @ newline # ''    ORDER BY '') (dataQuery plan)"
    unfolding d wc by (rule data_sql_where_line)
  have 3: "countQuery plan
             = (if q_count (query opts) = Some ''true''
                then Some (newline # ''    SELECT COUNT(*) as total'' @ newline # ''    FROM ''
                           @ table opts @ newline # ''    '' @ wt @ newline # ''  '')
                else None)"
    unfolding c wc count_sql_text by simp
  have 4: "opts = member_list_options req \<longrightarrow>
               fst (member_list pf db req)
                 = (dataQuery plan, params plan)
                   # (case countQuery plan of None \<Rightarrow> [] | Some cq \<Rightarrow> [(cq, params plan)])"
  proof (rule impI)
    assume e: "opts = member_list_options req"
    from assms [unfolded e] have "fst (member_list pf db req) = fst (execute_queries db plan)"
      by (rule issued_member_list)
    then show "fst (member_list pf db req)
                 = (dataQuery plan, params plan)
                   # (case countQuery plan of None \<Rightarrow> [] | Some cq \<Rightarrow> [(cq, params plan)])"
      by (simp add: issued_execute_queries)
  qed
  have 5: "opts = office_list_options req \<longrightarrow>
               fst (office_list pf db req)
                 = (dataQuery plan, params plan)
                   # (case countQuery plan of None \<Rightarrow> [] | Some cq \<Rightarrow> [(cq, params plan)])"
  proof (rule impI)
    assume e: "opts = office_list_options req"
    from assms [unfolded e] have "fst (office_list pf db req) = fst (execute_queries db plan)"
      by (rule issued_office_list)
    then show "fst (office_list pf db req)
                 = (dataQuery plan, params plan)
                   # (case countQuery plan of None \<Rightarrow> [] | Some cq \<Rightarrow> [(cq, params plan)])"
      by (simp add: issued_execute_queries)
  qed
  have 6: "opts = property_list_options req \<longrightarrow>
               (\<exists>e. property_list pf db req = ([], ListFailed e))
               \<or> fst (property_list pf db req)
                 = (dataQuery plan, params plan)
                   # (case countQuery plan of None \<Rightarrow> [] | Some cq \<Rightarrow> [(cq, params plan)])"
  proof (rule impI)
    assume e: "opts = property_list_options req"
    from issued_property_list [OF assms [unfolded e], of db]
    show "(\<exists>e. property_list pf db req = ([], ListFailed e))
               \<or> fst (property_list pf db req)
                 = (dataQuery plan, params plan)
                   # (case countQuery plan of None \<Rightarrow> [] | Some cq \<Rightarrow> [(cq, params plan)])"
      by (simp add: issued_execute_queries)
  qed
  from 1 2 3 4 5 6 wt_def show ?thesis by blast
qed

text \<open>
  The theorem at \<open>GET /odata/Property?$count=true&$filter=ListPrice gt 500000\<close>: both
  statements carry the line \<open>WHERE IDCLISTPRICE > @filter0\<close>, and the handler issues both
  with \<open>filter0\<close> bound.
\<close>

theorem count_query_same_where_witness:
  "\<exists>plan.
      buildQuery id counted_options = Inr plan
    \<and> counted_options = property_list_options counted_http_request
    \<and> params plan = [(''filter0'', PNum ''500000'')]
    \<and> sublist (newline # ''    WHERE IDCLISTPRICE > @filter0'' @ newline # ''    ORDER BY '')
          (dataQuery plan)
    \<and> countQuery plan
        = Some (newline # ''    SELECT COUNT(*) as total'' @ newline
                # ''    FROM idc_agy.AGY_CMNCMN_VW'' @ newline
                # ''    WHERE IDCLISTPRICE > @filter0'' @ newline # ''  '')
    \<and> fst (property_list id no_rows counted_http_request)
        = [(dataQuery plan, params plan),
           (newline # ''    SELECT COUNT(*) as total'' @ newline
              # ''    FROM idc_agy.AGY_CMNCMN_VW'' @ newline
              # ''    WHERE IDCLISTPRICE > @filter0'' @ newline # ''  '', params plan)]"
proof -
  from buildQuery_counted obtain plan where p: "buildQuery id counted_options = Inr plan" ..
  have ex: "parseExpand (q_expand (req_query counted_http_request)) ALLOWED_EXPANSIONS = Inr []"
    by (simp add: counted_http_request_def counted_request_def no_options_def parseExpand_def)
  have nf: "\<And>e. property_list id no_rows counted_http_request \<noteq> ([], ListFailed e)"
    by (rule property_list_not_failed [OF ex p [unfolded counted_options_of_request]])
  from count_query_same_where [OF p, of counted_http_request no_rows]
  obtain conds w where
    wc: "where_conditions id counted_options = Inr (conds, params plan)" and
    w: "w = (if conds = [] then [] else ''WHERE '' @ join '' AND '' conds)" and
    d: "sublist (newline # ''    '' @ w @ newline # ''    ORDER BY '') (dataQuery plan)" and
    c: "countQuery plan
          = (if q_count (query counted_options) = Some ''true''
             then Some (newline # ''    SELECT COUNT(*) as total'' @ newline # ''    FROM ''
                        @ table counted_options @ newline # ''    '' @ w @ newline # ''  '')
             else None)" and
    l: "counted_options = property_list_options counted_http_request \<longrightarrow>
          (\<exists>e. property_list id no_rows counted_http_request = ([], ListFailed e))
          \<or> fst (property_list id no_rows counted_http_request)
               = (dataQuery plan, params plan)
                 # (case countQuery plan of None \<Rightarrow> [] | Some cq \<Rightarrow> [(cq, params plan)])"
    by blast
  from wc where_conditions_counted have
    conds: "conds = [''IDCLISTPRICE > @filter0'']" and ps: "params plan = [(''filter0'', PNum ''500000'')]"
    by simp_all
  have wt: "w = ''WHERE IDCLISTPRICE > @filter0''" unfolding w conds by simp
  have t: "table counted_options = ''idc_agy.AGY_CMNCMN_VW''"
          "q_count (query counted_options) = Some ''true''"
    by (simp_all add: counted_options_def counted_request_def property_TABLE_def)
  have c': "countQuery plan
        = Some (newline # ''    SELECT COUNT(*) as total'' @ newline
                # ''    FROM idc_agy.AGY_CMNCMN_VW'' @ newline
                # ''    WHERE IDCLISTPRICE > @filter0'' @ newline # ''  '')"
    using c unfolding wt t by simp
  have d': "sublist (newline # ''    WHERE IDCLISTPRICE > @filter0'' @ newline # ''    ORDER BY '')
          (dataQuery plan)"
    using d unfolding wt by simp
  from l counted_options_of_request nf
  have "fst (property_list id no_rows counted_http_request)
          = (dataQuery plan, params plan)
            # (case countQuery plan of None \<Rightarrow> [] | Some cq \<Rightarrow> [(cq, params plan)])"
    by blast
  then have l': "fst (property_list id no_rows counted_http_request)
        = [(dataQuery plan, params plan),
           (newline # ''    SELECT COUNT(*) as total'' @ newline
              # ''    FROM idc_agy.AGY_CMNCMN_VW'' @ newline
              # ''    WHERE IDCLISTPRICE > @filter0'' @ newline # ''  '', params plan)]"
    unfolding c' by simp
  from p counted_options_of_request ps d' c' l' show ?thesis by blast
qed

section \<open>The next link\<close>

text \<open>
  The part of a next link that re-includes one option the client supplied: nothing for an
  absent or empty option, otherwise \<open>&name=value\<close> with the value URL-encoded.
\<close>

definition link_param :: "string \<Rightarrow> string option \<Rightarrow> string" where
  "link_param name x =
     (case x of None \<Rightarrow> [] | Some v \<Rightarrow> if v = [] then [] else ''&'' @ name @ ''='' @ urlencode v)"

lemma urlencode_names:
  "urlencode ''$top'' = ''%24top''" "urlencode ''$skip'' = ''%24skip''"
  "urlencode ''$select'' = ''%24select''" "urlencode ''$filter'' = ''%24filter''"
  "urlencode ''$orderby'' = ''%24orderby''" "urlencode ''$count'' = ''%24count''"
  by (simp_all add: urlencode_def urlencode_char_def is_word_char_def is_word_start_def
      is_digit_def percent_byte_def hex_char_def)

lemma urlencode_digit: "is_digit c \<Longrightarrow> urlencode_char c = [c]"
  by (auto simp: urlencode_char_def is_word_char_def is_digit_def)

lemma urlencode_digits: "list_all is_digit s \<Longrightarrow> urlencode s = s"
  by (induction s) (simp_all add: urlencode_def urlencode_digit)

lemma urlencode_toString_int: "0 \<le> i \<Longrightarrow> urlencode (toString_int i) = toString_int i"
  by (simp add: toString_int_def urlencode_digits toString_nat_digits)

lemma usp_set_fresh: "k \<notin> fst ` set qp \<Longrightarrow> usp_set k v qp = qp @ [(k, v)]"
  by (induction qp) auto

lemma join_snoc: "xs \<noteq> [] \<Longrightarrow> join sep (xs @ [y]) = join sep xs @ sep @ y"
  by (induction sep xs rule: join.induct) simp_all

lemma usp_toString_snoc:
  "qp \<noteq> [] \<Longrightarrow> usp_toString (qp @ [(k, v)])
     = usp_toString qp @ ''&'' @ urlencode k @ ''='' @ urlencode v"
  by (simp add: usp_toString_def join_snoc)

lemma set_if_fresh:
  assumes "name \<notin> fst ` set qp" "qp \<noteq> []"
  shows "usp_toString (set_if name x qp) = usp_toString qp @ link_param (urlencode name) x"
    and "set_if name x qp \<noteq> []"
    and "fst ` set (set_if name x qp) \<subseteq> insert name (fst ` set qp)"
  using assms
  by (auto simp: set_if_def link_param_def usp_set_fresh usp_toString_snoc split: option.split)

lemma nextLink_text:
  assumes "0 \<le> skp" "0 \<le> tp"
  shows "nextLink base q skp tp totalCount =
     (if skp + tp < totalCount
      then Some (base @ ''?%24top='' @ toString_int tp @ ''&%24skip='' @ toString_int (skp + tp)
                 @ link_param ''%24select'' (q_select q) @ link_param ''%24filter'' (q_filter q)
                 @ link_param ''%24orderby'' (q_orderby q) @ link_param ''%24count'' (q_count q))
      else None)"
proof -
  let ?qp1 = "[(''$top'', toString_int tp), (''$skip'', toString_int (skp + tp))]"
  let ?qp2 = "set_if ''$select'' (q_select q) ?qp1"
  let ?qp3 = "set_if ''$filter'' (q_filter q) ?qp2"
  let ?qp4 = "set_if ''$orderby'' (q_orderby q) ?qp3"
  let ?qp5 = "set_if ''$count'' (q_count q) ?qp4"
  have s1: "usp_toString ?qp1
              = ''%24top='' @ toString_int tp @ ''&%24skip='' @ toString_int (skp + tp)"
    using assms by (simp add: usp_toString_def urlencode_names urlencode_toString_int)
  have k1: "fst ` set ?qp1 = {''$top'', ''$skip''}" by auto
  have f2: "''$select'' \<notin> fst ` set ?qp1" unfolding k1 by simp
  note r2 = set_if_fresh [OF f2, of "q_select q"]
  have k2: "fst ` set ?qp2 \<subseteq> {''$select'', ''$top'', ''$skip''}"
    using r2(3) unfolding k1 by simp
  have f3: "''$filter'' \<notin> fst ` set ?qp2" using k2 by auto
  note r3 = set_if_fresh [OF f3, of "q_filter q"]
  have k3: "fst ` set ?qp3 \<subseteq> {''$filter'', ''$select'', ''$top'', ''$skip''}"
    using r3(3) k2 r2(2) by auto
  have f4: "''$orderby'' \<notin> fst ` set ?qp3" using k3 by auto
  note r4 = set_if_fresh [OF f4, of "q_orderby q"]
  have k4: "fst ` set ?qp4 \<subseteq> {''$orderby'', ''$filter'', ''$select'', ''$top'', ''$skip''}"
    using r4(3) k3 r3(2) r2(2) by auto
  have f5: "''$count'' \<notin> fst ` set ?qp4" using k4 by auto
  note r5 = set_if_fresh [OF f5, of "q_count q"]
  have "usp_toString ?qp5
          = ''%24top='' @ toString_int tp @ ''&%24skip='' @ toString_int (skp + tp)
            @ link_param ''%24select'' (q_select q) @ link_param ''%24filter'' (q_filter q)
            @ link_param ''%24orderby'' (q_orderby q) @ link_param ''%24count'' (q_count q)"
    using r2(1,2) r3(1,2) r4(1,2) r5(1) s1 by (simp add: urlencode_names)
  then show ?thesis
    by (simp add: nextLink_def Let_def)
qed

lemma pagination_bounds_aux:
  assumes "buildQuery pf opts = Inr plan"
  shows "1 \<le> top plan \<and> top plan \<le> 1000 \<and> 0 \<le> skip plan"
  using buildQuery_Inr [OF assms] by auto

lemma nextLinkBuilder_text:
  assumes "buildQuery pf opts = Inr plan" and "baseUrl opts = Some base" and "base \<noteq> []"
  shows "nextLinkBuilder plan = Some (nextLink base (query opts) (skip plan) (top plan))"
    and "nextLink base (query opts) (skip plan) (top plan) totalCount =
             (if skip plan + top plan < totalCount
              then Some (base @ ''?%24top='' @ toString_int (top plan)
                         @ ''&%24skip='' @ toString_int (skip plan + top plan)
                         @ link_param ''%24select'' (q_select (query opts))
                         @ link_param ''%24filter'' (q_filter (query opts))
                         @ link_param ''%24orderby'' (q_orderby (query opts))
                         @ link_param ''%24count'' (q_count (query opts)))
              else None)"
proof -
  from pagination_bounds_aux [OF assms(1)] have b: "0 \<le> skip plan" "0 \<le> top plan" by simp_all
  from buildQuery_Inr [OF assms(1)] assms(2,3)
  show "nextLinkBuilder plan = Some (nextLink base (query opts) (skip plan) (top plan))"
    by (auto simp: truthy_def)
  show "nextLink base (query opts) (skip plan) (top plan) totalCount =
             (if skip plan + top plan < totalCount
              then Some (base @ ''?%24top='' @ toString_int (top plan)
                         @ ''&%24skip='' @ toString_int (skip plan + top plan)
                         @ link_param ''%24select'' (q_select (query opts))
                         @ link_param ''%24filter'' (q_filter (query opts))
                         @ link_param ''%24orderby'' (q_orderby (query opts))
                         @ link_param ''%24count'' (q_count (query opts)))
              else None)"
    by (rule nextLink_text [OF b])
qed

lemma countQuery_counted:
  assumes "buildQuery pf opts = Inr plan"
  shows "(countQuery plan = None) = (q_count (query opts) \<noteq> Some ''true'')"
  using buildQuery_Inr [OF assms] by auto

lemma property_nextLink_builder:
  assumes "parseExpand (q_expand (req_query req)) ALLOWED_EXPANSIONS = Inr ex"
      and "buildQuery pf (property_list_options req) = Inr plan"
      and "nextLinkBuilder plan = Some builder"
  shows "property_nextLink pf req totalCount
           = Inr (if q_count (req_query req) = Some ''true'' then builder totalCount else None)"
proof -
  have q: "query (property_list_options req :: 'a options) = req_query req"
    by (simp add: property_list_options_def)
  from countQuery_counted [OF assms(2)] q
  have c: "(countQuery plan = None) = (q_count (req_query req) \<noteq> Some ''true'')" by simp
  show ?thesis
    using assms c by (cases "countQuery plan") (simp_all add: property_nextLink_def)
qed

lemma plan_default_page:
  assumes "buildQuery pf opts = Inr plan" and "q_top (query opts) = None" and "q_skip (query opts) = None"
  shows "top plan = 100" "skip plan = 0"
  using buildQuery_Inr [OF assms(1)] assms(2,3)
  by (auto simp: parseInt_def or_number_def)

lemma link_params_counted:
  "link_param ''%24select'' (q_select counted_request) = []"
  "link_param ''%24filter'' (q_filter counted_request) = ''&%24filter=ListPrice+gt+500000''"
  "link_param ''%24orderby'' (q_orderby counted_request) = []"
  "link_param ''%24count'' (q_count counted_request) = ''&%24count=true''"
  by (simp_all add: link_param_def counted_request_def no_options_def urlencode_def
      urlencode_char_def is_word_char_def is_word_start_def is_digit_def)

lemma toString_int_100: "toString_int 100 = ''100''"
  by (simp add: toString_int_def toString_nat.simps digit_char_def)

text \<open>
  The request \<open>GET /odata/Property?$count=true&$select=\<close>: the client supplies
  \<open>$select\<close> with the empty string as its value.
\<close>

definition empty_select_request :: request where
  "empty_select_request =
     \<lparr> req_key = [], req_query = no_options \<lparr> q_count := Some ''true'', q_select := Some [] \<rparr>,
       req_protocol = ''http'', req_host = ''localhost'', req_baseUrl = ''/odata'' \<rparr>"

lemma buildQuery_empty_select:
  "\<exists>plan. buildQuery id (property_list_options empty_select_request) = Inr (plan :: string plan)"
  by (rule buildQuery_total [where selectFields = "all_columns property_fieldMap"
        and cp = "([], [])" and orderBy = "[]"])
     (simp_all add: property_list_options_def empty_select_request_def no_options_def
        parseSelect_def where_conditions_def base_conditions_def filter_conditions_def
        truthy_def parseOrderBy_def)

lemma link_params_empty_select:
  "link_param ''%24select'' (Some []) = []"
  "link_param x None = []"
  "link_param ''%24count'' (Some ''true'') = ''&%24count=true''"
  by (simp_all add: link_param_def urlencode_def urlencode_char_def is_word_char_def
      is_word_start_def is_digit_def)

text \<open>
  C7, as the specification states it, fails at \<open>GET /odata/Property?$count=true&$select=\<close>
  with a count of 101: the client supplied \<open>$select\<close>, and the next link does not
  re-include it.
\<close>

theorem next_link_empty_option_counterexample:
  "q_select (req_query empty_select_request) = Some []
   \<and> property_nextLink id empty_select_request 101
       = Inr (Some ''http://localhost/odata/Property?%24top=100&%24skip=100&%24count=true'')"
proof -
  from buildQuery_empty_select obtain plan :: "string plan" where
    p: "buildQuery id (property_list_options empty_select_request) = Inr plan" ..
  have ex: "parseExpand (q_expand (req_query empty_select_request)) ALLOWED_EXPANSIONS = Inr []"
    by (simp add: empty_select_request_def no_options_def parseExpand_def)
  have b: "baseUrl (property_list_options empty_select_request :: string options)
             = Some ''http://localhost/odata/Property''"
    by (simp add: property_list_options_def empty_select_request_def request_baseUrl_def)
  have q: "query (property_list_options empty_select_request :: string options)
             = no_options \<lparr> q_count := Some ''true'', q_select := Some [] \<rparr>"
    by (simp add: property_list_options_def empty_select_request_def)
  have pg: "top plan = 100" "skip plan = 0"
    by (rule plan_default_page [OF p]; simp add: q no_options_def)+
  note n = nextLinkBuilder_text [OF p b, simplified]
  have "property_nextLink id empty_select_request 101
          = Inr (nextLink ''http://localhost/odata/Property''
                   (no_options \<lparr> q_count := Some ''true'', q_select := Some [] \<rparr>) 0 100 101)"
    using property_nextLink_builder [OF ex p n(1), of 101] unfolding q pg
    by (simp add: empty_select_request_def)
  also have "nextLink ''http://localhost/odata/Property''
                   (no_options \<lparr> q_count := Some ''true'', q_select := Some [] \<rparr>) 0 100 101
       = Some ''http://localhost/odata/Property?%24top=100&%24skip=100&%24count=true''"
    using n(2) [of 101] unfolding q pg
    by (simp add: no_options_def link_params_empty_select toString_int_100)
  finally have l: "property_nextLink id empty_select_request 101
       = Inr (Some ''http://localhost/odata/Property?%24top=100&%24skip=100&%24count=true'')" .
  have s: "q_select (req_query empty_select_request) = Some []"
    by (simp add: empty_select_request_def)
  show ?thesis by (rule conjI [OF s l])
qed

text \<open>
  C7.  For a plan built with a non-empty base URL and with \<open>skip + top\<close> at most
  \<open>2 ^ 53\<close> (the range in which the numbers of the program are exact integers and print
  as decimal digits), the next-link closure applied to a total returns nothing exactly
  when \<open>skip + top \<ge> total\<close>, and otherwise the URL
  \<open><baseUrl>?%24top=<top>&%24skip=<skip+top>\<close> followed, for each of \<open>$select\<close>,
  \<open>$filter\<close>, \<open>$orderby\<close>, \<open>$count\<close> that the client supplied with a non-empty value, by
  \<open>&%24<name>=<value>\<close> with the value URL-encoded; an option that is absent or empty is
  not re-included.  The list handler of Property, when \<open>$expand\<close> is valid, puts this
  result into the envelope of a request with \<open>$count=true\<close>, and no link otherwise.
\<close>

theorem next_link_closure:
  assumes "buildQuery pf opts = Inr plan" and "baseUrl opts = Some base" and "base \<noteq> []"
      and "skip plan + top plan \<le> 2 ^ 53"
  shows "\<exists>builder. nextLinkBuilder plan = Some builder
       \<and> (\<forall>total. (builder total = None) = (skip plan + top plan \<ge> total))
       \<and> (\<forall>total. builder total =
             (if skip plan + top plan < total
              then Some (base @ ''?%24top='' @ toString_int (top plan)
                         @ ''&%24skip='' @ toString_int (skip plan + top plan)
                         @ (case q_select (query opts) of None \<Rightarrow> []
                            | Some v \<Rightarrow> if v = [] then [] else ''&%24select='' @ urlencode v)
                         @ (case q_filter (query opts) of None \<Rightarrow> []
                            | Some v \<Rightarrow> if v = [] then [] else ''&%24filter='' @ urlencode v)
                         @ (case q_orderby (query opts) of None \<Rightarrow> []
                            | Some v \<Rightarrow> if v = [] then [] else ''&%24orderby='' @ urlencode v)
                         @ (case q_count (query opts) of None \<Rightarrow> []
                            | Some v \<Rightarrow> if v = [] then [] else ''&%24count='' @ urlencode v))
              else None))
       \<and> (opts = property_list_options req \<longrightarrow>
            (\<exists>e. \<forall>total. property_nextLink pf req total = Inl e)
          \<or> (\<forall>total. property_nextLink pf req total
                        = Inr (if q_count (req_query req) = Some ''true''
                               then builder total else None)))"
proof -
  note n = nextLinkBuilder_text [OF assms(1-3)]
  let ?b = "nextLink base (query opts) (skip plan) (top plan)"
  have 1: "\<And>total. (?b total = None) = (skip plan + top plan \<ge> total)"
    unfolding n(2) by auto
  have 2: "\<And>total. ?b total =
             (if skip plan + top plan < total
              then Some (base @ ''?%24top='' @ toString_int (top plan)
                         @ ''&%24skip='' @ toString_int (skip plan + top plan)
                         @ (case q_select (query opts) of None \<Rightarrow> []
                            | Some v \<Rightarrow> if v = [] then [] else ''&%24select='' @ urlencode v)
                         @ (case q_filter (query opts) of None \<Rightarrow> []
                            | Some v \<Rightarrow> if v = [] then [] else ''&%24filter='' @ urlencode v)
                         @ (case q_orderby (query opts) of None \<Rightarrow> []
                            | Some v \<Rightarrow> if v = [] then [] else ''&%24orderby='' @ urlencode v)
                         @ (case q_count (query opts) of None \<Rightarrow> []
                            | Some v \<Rightarrow> if v = [] then [] else ''&%24count='' @ urlencode v))
              else None)"
    unfolding n(2) link_param_def by (simp split: option.split)
  have 3: "opts = property_list_options req \<longrightarrow>
            (\<exists>e. \<forall>total. property_nextLink pf req total = Inl e)
          \<or> (\<forall>total. property_nextLink pf req total
                        = Inr (if q_count (req_query req) = Some ''true''
                               then ?b total else None))"
  proof (rule impI)
    assume e: "opts = property_list_options req"
    show "(\<exists>e. \<forall>total. property_nextLink pf req total = Inl e)
          \<or> (\<forall>total. property_nextLink pf req total
                        = Inr (if q_count (req_query req) = Some ''true''
                               then ?b total else None))"
    proof (cases "parseExpand (q_expand (req_query req)) ALLOWED_EXPANSIONS")
      case (Inl err)
      then have "\<forall>total. property_nextLink pf req total = Inl err"
        by (simp add: property_nextLink_def)
      then show ?thesis by blast
    next
      case (Inr ex)
      from property_nextLink_builder [OF Inr assms(1) [unfolded e] n(1) [unfolded e]]
      show ?thesis unfolding e by simp
    qed
  qed
  from n(1) 1 2 3 show ?thesis by blast
qed

text \<open>
  The theorem at \<open>GET /odata/Property?$count=true&$filter=ListPrice gt 500000\<close>, where
  \<open>top = 100\<close> and \<open>skip = 0\<close>: no link for a total of 100, and for a total of 101 the
  link to the second page, which is what the handler puts into the envelope.
\<close>

theorem next_link_closure_witness:
  "\<exists>plan builder.
      buildQuery id counted_options = Inr plan
    \<and> baseUrl counted_options = Some ''http://localhost/odata/Property''
    \<and> skip plan + top plan \<le> 2 ^ 53
    \<and> nextLinkBuilder plan = Some builder
    \<and> builder 100 = None
    \<and> builder 101 = Some (''http://localhost/odata/Property?%24top=100&%24skip=100''
                           @ ''&%24filter=ListPrice+gt+500000&%24count=true'')
    \<and> counted_options = property_list_options counted_http_request
    \<and> property_nextLink id counted_http_request 101
        = Inr (Some (''http://localhost/odata/Property?%24top=100&%24skip=100''
                     @ ''&%24filter=ListPrice+gt+500000&%24count=true''))"
proof -
  from buildQuery_counted obtain plan where p: "buildQuery id counted_options = Inr plan" ..
  have b: "baseUrl counted_options = Some ''http://localhost/odata/Property''"
    by (simp add: counted_options_def)
  have q: "query counted_options = counted_request" by (simp add: counted_options_def)
  have pg: "top plan = 100" "skip plan = 0"
    by (rule plan_default_page [OF p]; simp add: q counted_request_def no_options_def)+
  have r: "skip plan + top plan \<le> 2 ^ 53" unfolding pg by simp
  have ex: "parseExpand (q_expand (req_query counted_http_request)) ALLOWED_EXPANSIONS = Inr []"
    by (simp add: counted_http_request_def counted_request_def no_options_def parseExpand_def)
  have nl: "\<And>e. property_nextLink id counted_http_request 0 \<noteq> Inl e"
    using ex p [unfolded counted_options_of_request]
    by (simp add: property_nextLink_def)
  have c: "q_count (req_query counted_http_request) = Some ''true''"
    by (simp add: counted_http_request_def counted_request_def)
  from next_link_closure [OF p b _ r, of counted_http_request] obtain builder where
    n: "nextLinkBuilder plan = Some builder" and
    t: "\<And>total. builder total =
             (if skip plan + top plan < total
              then Some (''http://localhost/odata/Property'' @ ''?%24top='' @ toString_int (top plan)
                         @ ''&%24skip='' @ toString_int (skip plan + top plan)
                         @ (case q_select (query counted_options) of None \<Rightarrow> []
                            | Some v \<Rightarrow> if v = [] then [] else ''&%24select='' @ urlencode v)
                         @ (case q_filter (query counted_options) of None \<Rightarrow> []
                            | Some v \<Rightarrow> if v = [] then [] else ''&%24filter='' @ urlencode v)
                         @ (case q_orderby (query counted_options) of None \<Rightarrow> []
                            | Some v \<Rightarrow> if v = [] then [] else ''&%24orderby='' @ urlencode v)
                         @ (case q_count (query counted_options) of None \<Rightarrow> []
                            | Some v \<Rightarrow> if v = [] then [] else ''&%24count='' @ urlencode v))
              else None)" and
    h: "counted_options = property_list_options counted_http_request \<longrightarrow>
            (\<exists>e. \<forall>total. property_nextLink id counted_http_request total = Inl e)
          \<or> (\<forall>total. property_nextLink id counted_http_request total
                        = Inr (if q_count (req_query counted_http_request) = Some ''true''
                               then builder total else None))"
    by auto
  have 1: "builder 100 = None"
    unfolding t pg by simp
  have 2: "builder 101 = Some (''http://localhost/odata/Property?%24top=100&%24skip=100''
                           @ ''&%24filter=ListPrice+gt+500000&%24count=true'')"
    unfolding t pg q using link_params_counted
    by (simp add: toString_int_100 link_param_def counted_request_def no_options_def)
  from h counted_options_of_request nl
  have "\<forall>total. property_nextLink id counted_http_request total
                        = Inr (if q_count (req_query counted_http_request) = Some ''true''
                               then builder total else None)"
    by blast
  then have 3: "property_nextLink id counted_http_request 101
        = Inr (Some (''http://localhost/odata/Property?%24top=100&%24skip=100''
                     @ ''&%24filter=ListPrice+gt+500000&%24count=true''))"
    using 2 unfolding c by simp
  from p b r n 1 2 counted_options_of_request 3 show ?thesis by blast
qed

section \<open>The \<open>ORDER BY\<close> clause\<close>

text \<open>
  What one entry of \<open>$orderby\<close> stands for: its first word is a field of the map, and
  the entry is that field's column with \<open>DESC\<close> when the second word is \<open>desc\<close> in any
  case, and with \<open>ASC\<close> otherwise.
\<close>

definition descending :: "string list \<Rightarrow> bool" where
  "descending rest = (case rest of [] \<Rightarrow> False | d # _ \<Rightarrow> toLowerCase d = ''desc'')"

definition order_entry :: "fieldMap \<Rightarrow> string \<Rightarrow> string \<Rightarrow> bool" where
  "order_entry fm part e =
     (case split_ws (trim part) of
        [] \<Rightarrow> False
      | field # rest \<Rightarrow>
          (case map_of fm field of
             None \<Rightarrow> False
           | Some col \<Rightarrow> e = col @ (if descending rest then '' DESC'' else '' ASC'')))"

lemma map_throw_Inr:
  "map_throw f xs = Inr ys \<Longrightarrow> list_all2 (\<lambda>x y. f x = Inr y) xs ys"
proof (induction xs arbitrary: ys)
  case Nil
  then show ?case by simp
next
  case (Cons x xs)
  from Cons.prems obtain y ys' where y: "f x = Inr y" and ys': "map_throw f xs = Inr ys'"
    and ys: "ys = y # ys'"
    by (auto split: sum.splits)
  from Cons.IH [OF ys'] y ys show ?case by simp
qed

lemma orderby_part_entry:
  assumes "orderby_part fm part = Inr e"
  shows "order_entry fm part e" and "e \<noteq> []"
  using assms
  by (auto simp: orderby_part_def order_entry_def descending_def Let_def
      split: list.splits option.splits if_splits)

lemma split_on_not_empty: "split_on sep s \<noteq> []"
  by (induction s) (auto split: list.split)

lemma join_not_empty: "xs \<noteq> [] \<Longrightarrow> hd xs \<noteq> [] \<Longrightarrow> join sep xs \<noteq> []"
  by (induction sep xs rule: join.induct) simp_all

lemma parseOrderBy_entries:
  assumes "parseOrderBy (Some s) fm = Inr ob" and "s \<noteq> []"
  shows "\<exists>entries. list_all2 (order_entry fm) (split_on CHR '','' s) entries
           \<and> ob = join '', '' entries \<and> ob \<noteq> []"
proof -
  from assms obtain entries where
    m: "map_throw (orderby_part fm) (split_on CHR '','' s) = Inr entries" and
    ob: "ob = join '', '' entries"
    by (auto simp: parseOrderBy_def split: sum.splits)
  from map_throw_Inr [OF m]
  have l: "list_all2 (\<lambda>x y. orderby_part fm x = Inr y) (split_on CHR '','' s) entries" .
  then have e: "list_all2 (order_entry fm) (split_on CHR '','' s) entries"
    by (rule list_all2_mono) (rule orderby_part_entry(1))
  from l split_on_not_empty [of "CHR '',''" s] obtain x xs y ys where
    "split_on CHR '','' s = x # xs" "entries = y # ys" "orderby_part fm x = Inr y"
    by (cases "split_on CHR '','' s"; cases entries) auto
  then have "entries \<noteq> []" "hd entries \<noteq> []"
    using orderby_part_entry(2) by auto
  then have "join '', '' entries \<noteq> []" by (rule join_not_empty)
  with e ob show ?thesis by blast
qed

lemma sublist_data_sql_order: "sublist ob (data_sql s t w ob sk tp)"
proof -
  have "data_sql s t w ob sk tp
          = (nl @ ''SELECT '' @ s @ nl @ ''FROM '' @ t @ nl @ w @ nl) @ ob
            @ (nl @ ''OFFSET '' @ toString_int sk @ '' ROWS'' @ nl @ ''FETCH NEXT ''
               @ toString_int tp @ '' ROWS ONLY'' @ newline # ''  '')"
    by (simp add: data_sql_def)
  then show ?thesis unfolding sublist_def by blast
qed

text \<open>
  C5.  The data SQL of every plan has an \<open>ORDER BY\<close> clause.  When the client supplies a
  (non-empty) \<open>$orderby\<close>, the clause lists one entry for each of its comma-separated
  parts, joined by commas: the backend column of the part's field, with \<open>ASC\<close> unless
  the part's second word is \<open>desc\<close>.  When the client supplies none, the clause orders
  by the column of the first entry of the field map (\<open>undefined\<close> for an empty map).
\<close>

theorem order_by_always:
  assumes "buildQuery pf opts = Inr plan"
  shows "\<exists>selectFields whereClause ob.
           dataQuery plan = data_sql selectFields (table opts) whereClause (''ORDER BY '' @ ob)
                              (skip plan) (top plan)
         \<and> sublist (''ORDER BY '' @ ob) (dataQuery plan)
         \<and> (case q_orderby (query opts) of
               None \<Rightarrow> ob = (case fieldMap opts of [] \<Rightarrow> ''undefined'' | (f, c) # _ \<Rightarrow> c)
             | Some s \<Rightarrow>
                 if s = []
                 then ob = (case fieldMap opts of [] \<Rightarrow> ''undefined'' | (f, c) # _ \<Rightarrow> c)
                 else (\<exists>entries. list_all2 (order_entry (fieldMap opts)) (split_on CHR '','' s) entries
                         \<and> ob = join '', '' entries))"
proof -
  from buildQuery_Inr [OF assms] obtain selectFields cp orderBy where
    o: "parseOrderBy (q_orderby (query opts)) (fieldMap opts) = Inr orderBy" and
    d: "dataQuery plan = data_sql selectFields (table opts) (where_clause (fst cp))
          (order_by_clause (fieldMap opts) orderBy) (skip plan) (top plan)"
    by auto
  define ob where "ob = (if orderBy \<noteq> [] then orderBy else first_column (fieldMap opts))"
  have c: "order_by_clause (fieldMap opts) orderBy = ''ORDER BY '' @ ob"
    by (simp add: order_by_clause_def ob_def)
  have 1: "dataQuery plan = data_sql selectFields (table opts) (where_clause (fst cp))
             (''ORDER BY '' @ ob) (skip plan) (top plan)"
    using d c by simp
  have 2: "sublist (''ORDER BY '' @ ob) (dataQuery plan)"
    unfolding 1 by (rule sublist_data_sql_order)
  have 3: "(case q_orderby (query opts) of
               None \<Rightarrow> ob = (case fieldMap opts of [] \<Rightarrow> ''undefined'' | (f, c) # _ \<Rightarrow> c)
             | Some s \<Rightarrow>
                 if s = []
                 then ob = (case fieldMap opts of [] \<Rightarrow> ''undefined'' | (f, c) # _ \<Rightarrow> c)
                 else (\<exists>entries. list_all2 (order_entry (fieldMap opts)) (split_on CHR '','' s) entries
                         \<and> ob = join '', '' entries))"
  proof (cases "q_orderby (query opts)")
    case None
    with o have "orderBy = []" by (simp add: parseOrderBy_def)
    with None show ?thesis by (simp add: ob_def first_column_def)
  next
    case (Some s)
    show ?thesis
    proof (cases "s = []")
      case True
      with o Some have "orderBy = []" by (simp add: parseOrderBy_def)
      with Some True show ?thesis by (simp add: ob_def first_column_def)
    next
      case False
      from parseOrderBy_entries [OF o [unfolded Some] False] obtain entries where
        "list_all2 (order_entry (fieldMap opts)) (split_on CHR '','' s) entries"
        "orderBy = join '', '' entries" "orderBy \<noteq> []"
        by blast
      with Some False show ?thesis by (auto simp: ob_def)
    qed
  qed
  from 1 2 3 show ?thesis by blast
qed

text \<open>A collection request for Property ordered by price, highest first, then by city.\<close>

definition ordered_options :: "string options" where
  "ordered_options =
     \<lparr> table = property_TABLE, fieldMap = property_fieldMap,
       query = no_options \<lparr> q_orderby := Some ''ListPrice desc, City'' \<rparr>,
       keyField = property_KEY_FIELD, keyValue = None, baseUrl = None, baseWhere = None \<rparr>"

lemma split_on_ordered:
  "split_on CHR '','' ''ListPrice desc, City'' = [''ListPrice desc'', '' City'']"
  by simp

lemma split_ws_ordered:
  "split_ws (trim ''ListPrice desc'') = [''ListPrice'', ''desc'']"
  "split_ws (trim '' City'') = [''City'']"
  by (simp_all add: trim_def split_ws.simps is_space_def)

lemma columns_ordered:
  "map_of property_fieldMap ''ListPrice'' = Some ''IDCLISTPRICE''"
  "map_of property_fieldMap ''City'' = Some ''CITY''"
  by (simp_all add: property_fieldMap_def)

lemma descending_ordered: "descending [''desc'']" "\<not> descending []"
  by (simp_all add: descending_def toLowerCase_def lower_char_def upper_letters_def
      lower_letters_def)

lemma order_entry_ordered:
  "order_entry property_fieldMap ''ListPrice desc'' e = (e = ''IDCLISTPRICE DESC'')"
  "order_entry property_fieldMap '' City'' e = (e = ''CITY ASC'')"
  by (simp_all add: order_entry_def split_ws_ordered columns_ordered descending_ordered)

lemma orderby_part_ordered:
  "orderby_part property_fieldMap ''ListPrice desc'' = Inr ''IDCLISTPRICE DESC''"
  "orderby_part property_fieldMap '' City'' = Inr ''CITY ASC''"
  by (simp_all add: orderby_part_def split_ws_ordered columns_ordered toLowerCase_def
      lower_char_def upper_letters_def lower_letters_def)

lemma buildQuery_ordered: "\<exists>plan. buildQuery id ordered_options = Inr plan"
proof (rule buildQuery_total)
  show "parseSelect (q_select (query ordered_options)) (fieldMap ordered_options)
          = Inr (all_columns property_fieldMap)"
    by (simp add: ordered_options_def no_options_def parseSelect_def)
  show "where_conditions id ordered_options = Inr ([], [])"
    by (simp add: ordered_options_def no_options_def where_conditions_def base_conditions_def
        filter_conditions_def truthy_def)
  show "parseOrderBy (q_orderby (query ordered_options)) (fieldMap ordered_options)
          = Inr ''IDCLISTPRICE DESC, CITY ASC''"
    by (simp add: ordered_options_def no_options_def parseOrderBy_def split_on_ordered
        orderby_part_ordered del: split_on.simps)
qed

text \<open>A collection request for Property with no option.\<close>

definition plain_options :: "string options" where
  "plain_options =
     \<lparr> table = property_TABLE, fieldMap = property_fieldMap, query = no_options,
       keyField = property_KEY_FIELD, keyValue = None, baseUrl = None, baseWhere = None \<rparr>"

text \<open>
  The theorem at \<open>GET /odata/Property?$orderby=ListPrice desc, City\<close>, where the data SQL
  contains \<open>ORDER BY IDCLISTPRICE DESC, CITY ASC\<close>, and at \<open>GET /odata/Property\<close>, where
  it contains \<open>ORDER BY IDCPROPERTYID\<close>, the column of \<open>ListingKey\<close>, at the end of a line.
\<close>

theorem order_by_always_witness:
  "\<exists>plan plan'.
       buildQuery id ordered_options = Inr plan
     \<and> sublist ''ORDER BY IDCLISTPRICE DESC, CITY ASC'' (dataQuery plan)
     \<and> buildQuery id plain_options = Inr plan'
     \<and> sublist (''ORDER BY IDCPROPERTYID'' @ [newline]) (dataQuery plan')"
proof -
  from buildQuery_ordered obtain plan where p: "buildQuery id ordered_options = Inr plan" ..
  have q: "q_orderby (query ordered_options) = Some ''ListPrice desc, City''"
          "fieldMap ordered_options = property_fieldMap"
    by (simp_all add: ordered_options_def)
  from order_by_always [OF p] obtain ob entries where
    s: "sublist (''ORDER BY '' @ ob) (dataQuery plan)" and
    l: "list_all2 (order_entry property_fieldMap) [''ListPrice desc'', '' City''] entries" and
    ob: "ob = join '', '' entries"
    unfolding q split_on_ordered by auto
  from l have "entries = [''IDCLISTPRICE DESC'', ''CITY ASC'']"
    by (auto simp: list_all2_Cons1 order_entry_ordered)
  with ob have "ob = ''IDCLISTPRICE DESC, CITY ASC''" by simp
  with s have 1: "sublist ''ORDER BY IDCLISTPRICE DESC, CITY ASC'' (dataQuery plan)" by simp
  from buildQuery_plain [of no_options id property_TABLE property_fieldMap property_KEY_FIELD None]
  obtain plan' where p': "buildQuery id plain_options = Inr (plan' :: string plan)"
    by (auto simp: no_options_def plain_options_def)
  have q': "q_orderby (query plain_options) = None"
    by (simp add: plain_options_def no_options_def)
  have c: "(case fieldMap plain_options of [] \<Rightarrow> ''undefined'' | (f, c) # _ \<Rightarrow> c) = ''IDCPROPERTYID''"
    by (simp add: plain_options_def property_fieldMap_def)
  from order_by_always [OF p'] obtain selectFields whereClause where
    d: "dataQuery plan' = data_sql selectFields (table plain_options) whereClause
          (''ORDER BY '' @ ''IDCPROPERTYID'') (skip plan') (top plan')"
    unfolding q' c by auto
  have "data_sql selectFields (table plain_options) whereClause
          (''ORDER BY '' @ ''IDCPROPERTYID'') (skip plan') (top plan')
        = (nl @ ''SELECT '' @ selectFields @ nl @ ''FROM '' @ table plain_options @ nl
             @ whereClause @ [newline] @ ''    '')
          @ (''ORDER BY IDCPROPERTYID'' @ [newline])
          @ (''    OFFSET '' @ toString_int (skip plan') @ '' ROWS'' @ nl @ ''FETCH NEXT ''
               @ toString_int (top plan') @ '' ROWS ONLY'' @ newline # ''  '')"
    by (simp add: data_sql_def nl_def)
  then have 2: "sublist (''ORDER BY IDCPROPERTYID'' @ [newline]) (dataQuery plan')"
    unfolding d sublist_def by blast
  from p 1 p' 2 show ?thesis by blast
qed

end
